theory Spec2Isabelle
  imports Complex_Main "HOL-Library.Multiset" "HOL-Library.Char_ord" "HOL-Library.List_Lexorder"
begin

section \<open>JavaScript values used by the data-access layer\<close>

text \<open>
  Numbers that the code keeps integral (epoch milliseconds, counters) are modelled as
  \<^typ>\<open>int\<close>: sums and differences of integers below \<open>2 ^ 53\<close> are exact. Strings are \<^typ>\<open>string\<close>, a character standing for one code unit.
  \<open>String(n)\<close> of an integral number is its decimal numeral, with a leading minus sign
  for a negative one.
\<close>

definition digit_char :: "nat \<Rightarrow> char" where
  "digit_char d = ''0123456789'' ! d"

function show_nat :: "nat \<Rightarrow> string" where
  "show_nat n = (if n < 10 then [digit_char n] else show_nat (n div 10) @ [digit_char (n mod 10)])"
  by pat_completeness auto
termination
  by (relation "measure id") auto

declare show_nat.simps [simp del]

definition show_int :: "int \<Rightarrow> string" where
  "show_int i = (if i < 0 then CHR ''-'' # show_nat (nat (- i)) else show_nat (nat i))"

text \<open>
  The remainder operator \<open>%\<close> truncates towards zero: the result has the sign of the
  dividend. Only positive divisors occur in the code.
\<close>

definition js_rem :: "int \<Rightarrow> int \<Rightarrow> int" where
  "js_rem a b = (if a < 0 then - ((- a) mod b) else a mod b)"

section \<open>Duration formatter\<close>

text \<open>
  Numbers are IEEE doubles, and \<open>a / b\<close> is the double nearest to the quotient, a tie
  going to the even significand. For integral \<open>a\<close> and \<open>b > 0\<close> the nearest double is
  \<open>m / 2 ^ s\<close>, where \<open>s\<close> is 52 minus the binary exponent of the quotient and \<open>m\<close> is
  its significand of 53 bits, the nearest integer to \<open>a * 2 ^ s / b\<close>; the quotients of
  the formatter are far from overflow and from subnormal numbers.
  \<open>floor_quotient a b\<close> is \<open>Math.floor(a / b)\<close>.
\<close>

fun bit_len :: "nat \<Rightarrow> nat" where
  "bit_len n = (if n = 0 then 0 else Suc (bit_len (n div 2)))"

declare bit_len.simps [simp del]

definition binary_exponent :: "int \<Rightarrow> int \<Rightarrow> int" where
  "binary_exponent a b =
     (if b \<le> a then int (bit_len (nat (a div b))) - 1
      else - int (bit_len (nat ((b - 1) div a))))"

definition nearest_even :: "int \<Rightarrow> int \<Rightarrow> int" where
  "nearest_even n d =
     (let q = n div d; r = n mod d
      in if 2 * r < d then q else if d < 2 * r then q + 1 else if even q then q else q + 1)"

definition floor_quotient :: "int \<Rightarrow> int \<Rightarrow> int" where
  "floor_quotient a b =
     (if a = 0 then 0
      else
        let s = 52 - binary_exponent \<bar>a\<bar> b;
            m = (if 0 \<le> s then nearest_even (\<bar>a\<bar> * 2 ^ nat s) b
                 else nearest_even \<bar>a\<bar> (b * 2 ^ nat (- s)));
            v = sgn a * m
        in if 0 \<le> s then v div 2 ^ nat s else v * 2 ^ nat (- s))"

text \<open>
  \<^verbatim>\<open>formatDuration(ms)\<close>, for an integral number \<open>ms\<close> that a double holds. The
  remainder \<open>%\<close> is exact, and the template prints an integral number below \<open>10 ^ 21\<close>
  as its decimal numeral.
\<close>

definition formatDuration :: "int \<Rightarrow> string" where
  "formatDuration ms =
     (let totalSeconds = floor_quotient ms 1000;
          hours = floor_quotient totalSeconds 3600;
          minutes = floor_quotient (js_rem totalSeconds 3600) 60
      in if hours > 0 then show_int hours @ ''h '' @ show_int minutes @ ''m''
         else show_int minutes @ '' minutes'')"

section \<open>The worker store: demo tables and the persisted store\<close>

text \<open>
  Every operation returns \<open>{ success: false, error }\<close> or \<open>{ success: true, ... }\<close>.
\<close>

datatype 'a result = Failure string | Success 'a

fun succeeded :: "'a result \<Rightarrow> bool" where
  "succeeded (Success _) = True"
| "succeeded (Failure _) = False"

text \<open>
  A worker as the layer sees it. The demo objects have no \<open>is_active\<close> property and
  the column is nullable in the store; both are \<open>None\<close> here. The projection
  \<open>id, full_name, role\<close> is what authentication hands out.
\<close>

record worker_info =
  w_id :: string
  full_name :: string
  role :: string

record worker = worker_info +
  pin :: string
  is_active :: "bool option"

record auth =
  auth_worker :: worker_info
  isAdmin :: bool

text \<open>
  A row of \<open>verification_codes\<close>. The \<open>TIMESTAMPTZ\<close> columns are instants, kept as
  epoch milliseconds; \<open>used_at\<close> is null until the code is consumed. The demo table
  keeps one \<open>{ code, expiresAt }\<close> per worker id.
\<close>

record verification_code =
  vc_id :: string
  vc_worker_id :: string
  vc_code :: string
  vc_expires_at :: int
  vc_used_at :: "int option"
  vc_created_at :: int

record demo_code =
  code :: string
  expiresAt :: int

text \<open>
  A punch as the store hands it out; its \<open>timestamp\<close> is the ISO string on which the
  code works. The demo table \<open>demoState\<close> keeps the clock state per worker id.
\<close>

datatype punch_type = IN | OUT

record punch =
  punch_id :: string
  punch_worker_id :: string
  punch_type :: punch_type
  punch_timestamp :: string

record clock_state =
  isClockedIn :: bool
  clockInTime :: "string option"

record supabase_db =
  workers :: "worker list"
  punches :: "punch list"
  verification_codes :: "verification_code list"

record app_state =
  DEMO_WORKERS :: "worker list"
  demoState :: "string \<rightharpoonup> clock_state"
  demoVerificationCodes :: "string \<rightharpoonup> demo_code"
  db :: supabase_db

definition demo_worker :: "string \<Rightarrow> string \<Rightarrow> string \<Rightarrow> string \<Rightarrow> worker" where
  "demo_worker i p n r = \<lparr>w_id = i, full_name = n, role = r, pin = p, is_active = None\<rparr>"

definition initial_DEMO_WORKERS :: "worker list" where
  "initial_DEMO_WORKERS =
     [demo_worker ''demo-1'' ''123456'' ''John Smith'' ''worker'',
      demo_worker ''demo-2'' ''234567'' ''Maria Garcia'' ''worker'',
      demo_worker ''demo-3'' ''345678'' ''James Wilson'' ''supervisor'',
      demo_worker ''demo-4'' ''456789'' ''Sarah Johnson'' ''worker'',
      demo_worker ''demo-5'' ''567890'' ''Michael Brown'' ''worker'']"

text \<open>
  A call to the persisted store answers \<open>{ data, error }\<close>. Besides the errors that
  the tables themselves decide (no row for \<open>.single()\<close>, a violated \<open>UNIQUE\<close>
  constraint), a call can fail for reasons outside the tables (connectivity, row-level
  security, another constraint); such a failure is the argument \<open>fault\<close>, carrying the
  error code. The answer of \<open>.single()\<close> is an error unless exactly one row matches.
\<close>

definition single :: "string option \<Rightarrow> 'a list \<Rightarrow> string + 'a" where
  "single fault rows =
     (case fault of
        Some err \<Rightarrow> Inl err
      | None \<Rightarrow> (case rows of [r] \<Rightarrow> Inr r | _ \<Rightarrow> Inl ''PGRST116''))"

text \<open>
  \<open>insert(...).select().single()\<close> on \<open>workers\<close>: the column \<open>pin\<close> is \<open>UNIQUE\<close>,
  a duplicate is refused with SQLSTATE 23505; \<open>is_active\<close> defaults to true and the
  store generates the id.
\<close>

definition insert_worker ::
  "string option \<Rightarrow> string \<Rightarrow> supabase_db \<Rightarrow> string \<Rightarrow> string \<Rightarrow> string
     \<Rightarrow> string + (worker \<times> supabase_db)" where
  "insert_worker fault new_id d p n r =
     (case fault of
        Some err \<Rightarrow> Inl err
      | None \<Rightarrow>
          if list_ex (\<lambda>w. pin w = p) (workers d) then Inl ''23505''
          else let row = \<lparr>w_id = new_id, full_name = n, role = r, pin = p, is_active = Some True\<rparr>
               in Inr (row, d\<lparr>workers := workers d @ [row]\<rparr>))"

subsection \<open>authenticateWorker\<close>

definition authenticateWorker :: "bool \<Rightarrow> app_state \<Rightarrow> string option \<Rightarrow> string \<Rightarrow> auth result" where
  "authenticateWorker DEMO_MODE st fault p =
     (if p = ''000000'' then
        Success \<lparr>auth_worker = \<lparr>w_id = ''admin'', full_name = ''Administrator'', role = ''admin''\<rparr>,
                 isAdmin = True\<rparr>
      else if DEMO_MODE then
        (case find (\<lambda>w. pin w = p) (DEMO_WORKERS st) of
           None \<Rightarrow> Failure ''Invalid PIN. Please try again.''
         | Some w \<Rightarrow>
             Success \<lparr>auth_worker = \<lparr>w_id = w_id w, full_name = full_name w, role = role w\<rparr>,
                      isAdmin = False\<rparr>)
      else
        (case single fault (filter (\<lambda>w. pin w = p \<and> is_active w = Some True) (workers (db st))) of
           Inl err \<Rightarrow> Failure ''Invalid PIN. Please try again.''
         | Inr data \<Rightarrow>
             Success \<lparr>auth_worker = \<lparr>w_id = w_id data, full_name = full_name data, role = role data\<rparr>,
                      isAdmin = False\<rparr>))"

text \<open>
  The workers that can authenticate: every demo worker (the demo table has no notion of
  deactivation), and in the persisted store the rows whose \<open>is_active\<close> is true.
\<close>

definition active_workers :: "bool \<Rightarrow> app_state \<Rightarrow> worker list" where
  "active_workers DEMO_MODE st =
     (if DEMO_MODE then DEMO_WORKERS st
      else filter (\<lambda>w. is_active w = Some True) (workers (db st)))"

subsection \<open>createWorker\<close>

text \<open>
  \<open>/^\d{6}$/\<close> accepts exactly six ASCII digits. \<open>trim\<close> strips white space from both
  ends; of the white-space code units those below 256 are representable here.
\<close>

definition is_digit :: "char \<Rightarrow> bool" where
  "is_digit c = (CHR ''0'' \<le> c \<and> c \<le> CHR ''9'')"

definition six_digits :: "string \<Rightarrow> bool" where
  "six_digits s = (length s = 6 \<and> list_all is_digit s)"

definition is_space :: "char \<Rightarrow> bool" where
  "is_space c = (c \<in> set [CHR 0x09, CHR 0x0A, CHR 0x0B, CHR 0x0C, CHR 0x0D, CHR '' '', CHR 0xA0])"

definition trim :: "string \<Rightarrow> string" where
  "trim s = rev (dropWhile is_space (rev (dropWhile is_space s)))"

definition createWorker ::
  "bool \<Rightarrow> app_state \<Rightarrow> string option \<Rightarrow> int \<Rightarrow> string
     \<Rightarrow> string \<Rightarrow> string \<Rightarrow> string option \<Rightarrow> worker result \<times> app_state" where
  "createWorker DEMO_MODE st fault now new_id p fullName role_arg =
     (let r = (case role_arg of None \<Rightarrow> ''worker'' | Some x \<Rightarrow> x) in
      if \<not> six_digits p then (Failure ''PIN must be exactly 6 digits.'', st)
      else if trim fullName = [] then (Failure ''Name is required.'', st)
      else if DEMO_MODE then
        (if list_ex (\<lambda>w. pin w = p) (DEMO_WORKERS st)
         then (Failure ''This PIN is already in use.'', st)
         else let newWorker = \<lparr>w_id = ''demo-'' @ show_int now, full_name = trim fullName,
                                 role = r, pin = p, is_active = None\<rparr>
              in (Success newWorker, st\<lparr>DEMO_WORKERS := DEMO_WORKERS st @ [newWorker]\<rparr>))
      else
        (case insert_worker fault new_id (db st) p (trim fullName) r of
           Inl err \<Rightarrow>
             if err = ''23505'' then (Failure ''This PIN is already in use.'', st)
             else (Failure ''Failed to create worker. Please try again.'', st)
         | Inr (data, db') \<Rightarrow> (Success data, st\<lparr>db := db'\<rparr>)))"

text \<open>The PIN is in use: some worker of the table in force carries it.\<close>

definition pin_taken :: "bool \<Rightarrow> app_state \<Rightarrow> string \<Rightarrow> bool" where
  "pin_taken DEMO_MODE st p =
     list_ex (\<lambda>w. pin w = p) (if DEMO_MODE then DEMO_WORKERS st else workers (db st))"

section \<open>Verification codes\<close>

text \<open>
  \<^verbatim>\<open>sendVerificationCode\<close>: \<open>rnd\<close> is the value of \<open>Math.random()\<close>, a number in
  \<open>[0, 1)\<close>; \<open>now\<close> is the clock, \<open>new_id\<close> the id the store generates for the row.
  The address is only logged.
\<close>

definition generate_code :: "real \<Rightarrow> string" where
  "generate_code rnd = show_int \<lfloor>100000 + rnd * 900000\<rfloor>"

definition sendVerificationCode ::
  "bool \<Rightarrow> app_state \<Rightarrow> string option \<Rightarrow> int \<Rightarrow> real \<Rightarrow> string
     \<Rightarrow> string \<Rightarrow> string \<Rightarrow> string result \<times> app_state" where
  "sendVerificationCode DEMO_MODE st fault now rnd new_id workerId email =
     (let c = generate_code rnd;
          expires = now + 10 * 60 * 1000
      in if DEMO_MODE then
           (Success ''Code sent!'',
            st\<lparr>demoVerificationCodes :=
                 (demoVerificationCodes st)(workerId \<mapsto> \<lparr>code = c, expiresAt = expires\<rparr>)\<rparr>)
         else
           (case fault of
              Some err \<Rightarrow> (Failure ''Failed to send code. Please try again.'', st)
            | None \<Rightarrow>
                (Success ''Code sent!'',
                 st\<lparr>db := (db st)\<lparr>verification_codes := verification_codes (db st) @
                        [\<lparr>vc_id = new_id, vc_worker_id = workerId, vc_code = c,
                          vc_expires_at = expires, vc_used_at = None, vc_created_at = now\<rparr>]\<rparr>\<rparr>)))"

text \<open>
  The unused rows of a worker that carry the submitted code, most recent first. The
  store does not determine the order of rows with equal \<open>created_at\<close>; the model takes
  the one a stable sort gives.
\<close>

definition matching_codes :: "supabase_db \<Rightarrow> string \<Rightarrow> string \<Rightarrow> verification_code list" where
  "matching_codes d workerId c =
     rev (sort_key vc_created_at
       (filter (\<lambda>r. vc_worker_id r = workerId \<and> vc_code r = c \<and> vc_used_at r = None)
          (verification_codes d)))"

definition mark_used :: "int \<Rightarrow> string \<Rightarrow> supabase_db \<Rightarrow> supabase_db" where
  "mark_used now i d =
     d\<lparr>verification_codes :=
         map (\<lambda>r. if vc_id r = i then r\<lparr>vc_used_at := Some now\<rparr> else r) (verification_codes d)\<rparr>"

text \<open>
  \<^verbatim>\<open>verifyCode\<close>: \<open>fault\<close> is a failure of the select, \<open>update_fault\<close> one of the update
  that marks the row, whose outcome the code does not inspect.
\<close>

definition verifyCode ::
  "bool \<Rightarrow> app_state \<Rightarrow> string option \<Rightarrow> string option \<Rightarrow> int
     \<Rightarrow> string \<Rightarrow> string \<Rightarrow> unit result \<times> app_state" where
  "verifyCode DEMO_MODE st fault update_fault now workerId c =
     (if DEMO_MODE then
        (case demoVerificationCodes st workerId of
           None \<Rightarrow> (Failure ''No code found. Please request a new one.'', st)
         | Some stored \<Rightarrow>
             if code stored \<noteq> c then (Failure ''Invalid code. Please try again.'', st)
             else if now > expiresAt stored
               then (Failure ''Code expired. Please request a new one.'', st)
             else (Success (),
                   st\<lparr>demoVerificationCodes := (demoVerificationCodes st)(workerId := None)\<rparr>))
      else
        (case single fault (take 1 (matching_codes (db st) workerId c)) of
           Inl err \<Rightarrow> (Failure ''Invalid code. Please try again.'', st)
         | Inr data \<Rightarrow>
             if vc_expires_at data < now
               then (Failure ''Code expired. Please request a new one.'', st)
             else (Success (),
                   (case update_fault of
                      Some err \<Rightarrow> st
                    | None \<Rightarrow> st\<lparr>db := mark_used now (vc_id data) (db st)\<rparr>))))"

text \<open>
  The codes on record that a submission can match: the unused rows of the worker that
  carry the submitted code.
\<close>

definition code_on_record :: "supabase_db \<Rightarrow> string \<Rightarrow> string \<Rightarrow> verification_code list" where
  "code_on_record d workerId c =
     filter (\<lambda>r. vc_worker_id r = workerId \<and> vc_code r = c \<and> vc_used_at r = None)
       (verification_codes d)"

section \<open>Dates\<close>

text \<open>
  A \<open>Date\<close> is its time value: milliseconds since the epoch, an \<^typ>\<open>int\<close>; an invalid
  date (time value \<open>NaN\<close>) is \<open>None\<close>. Local time is UTC plus the offset \<open>tz\<close>, in
  milliseconds, positive east of Greenwich; the offset is fixed, so no daylight-saving
  change falls into the days a computation spans. Within one call the clock \<open>now\<close>
  does not advance.
\<close>

definition MS_PER_DAY :: int where
  "MS_PER_DAY = 86400000"

text \<open>Days since the epoch of a proleptic Gregorian date, and back.\<close>

definition days_from_civil :: "int \<Rightarrow> int \<Rightarrow> int \<Rightarrow> int" where
  "days_from_civil y m d =
     (let y' = (if m \<le> 2 then y - 1 else y);
          era = y' div 400;
          yoe = y' - era * 400;
          doy = (153 * (if m > 2 then m - 3 else m + 9) + 2) div 5 + d - 1;
          doe = yoe * 365 + yoe div 4 - yoe div 100 + doy
      in era * 146097 + doe - 719468)"

definition civil_from_days :: "int \<Rightarrow> int \<times> int \<times> int" where
  "civil_from_days z0 =
     (let z = z0 + 719468;
          era = z div 146097;
          doe = z - era * 146097;
          yoe = (doe - doe div 1460 + doe div 36524 - doe div 146096) div 365;
          doy = doe - (365 * yoe + yoe div 4 - yoe div 100);
          mp = (5 * doy + 2) div 153;
          d = doy - (153 * mp + 2) div 5 + 1;
          m = (if mp < 10 then mp + 3 else mp - 9);
          y = yoe + era * 400
      in (if m \<le> 2 then y + 1 else y, m, d))"

definition leap_year :: "int \<Rightarrow> bool" where
  "leap_year y = (y mod 4 = 0 \<and> (y mod 100 \<noteq> 0 \<or> y mod 400 = 0))"

definition days_in_month :: "int \<Rightarrow> int \<Rightarrow> int" where
  "days_in_month y m =
     (if m = 2 then (if leap_year y then 29 else 28)
      else if m = 4 \<or> m = 6 \<or> m = 9 \<or> m = 11 then 30 else 31)"

subsection \<open>Reading a date string\<close>

text \<open>
  \<open>new Date(s)\<close> for the ISO forms the layer meets: \<open>YYYY-MM-DD\<close>, read as UTC
  midnight, and \<open>YYYY-MM-DDTHH:MM:SS\<close> with an optional fraction of a second (cut after
  the third digit) and an optional offset \<open>Z\<close> or \<open>\<plusminus>HH:MM\<close>; without an offset the
  date-time is local time. Anything else is an invalid date.
\<close>

definition digit_val :: "char \<Rightarrow> nat" where
  "digit_val c = of_char c - 48"

definition nat_of_digits :: "string \<Rightarrow> nat" where
  "nat_of_digits s = foldl (\<lambda>n c. 10 * n + digit_val c) 0 s"

definition read_digits :: "nat \<Rightarrow> string \<Rightarrow> (int \<times> string) option" where
  "read_digits n s =
     (if n \<le> length s \<and> list_all is_digit (take n s)
      then Some (int (nat_of_digits (take n s)), drop n s) else None)"

definition read_char :: "char \<Rightarrow> string \<Rightarrow> string option" where
  "read_char c s = (case s of [] \<Rightarrow> None | x # xs \<Rightarrow> if x = c then Some xs else None)"

definition read_date :: "string \<Rightarrow> (int \<times> string) option" where
  "read_date s =
     (case read_digits 4 s of None \<Rightarrow> None | Some (y, s1) \<Rightarrow>
      case read_char CHR ''-'' s1 of None \<Rightarrow> None | Some s2 \<Rightarrow>
      case read_digits 2 s2 of None \<Rightarrow> None | Some (m, s3) \<Rightarrow>
      case read_char CHR ''-'' s3 of None \<Rightarrow> None | Some s4 \<Rightarrow>
      case read_digits 2 s4 of None \<Rightarrow> None | Some (d, s5) \<Rightarrow>
        if 1 \<le> m \<and> m \<le> 12 \<and> 1 \<le> d \<and> d \<le> days_in_month y m
        then Some (days_from_civil y m d * MS_PER_DAY, s5) else None)"

definition read_fraction :: "string \<Rightarrow> (int \<times> string) option" where
  "read_fraction s =
     (case s of
        CHR ''.'' # rest \<Rightarrow>
          (let ds = takeWhile is_digit rest
           in if ds = [] then None
              else Some (int (nat_of_digits (take 3 (ds @ ''00''))), dropWhile is_digit rest))
      | _ \<Rightarrow> Some (0, s))"

definition read_time :: "string \<Rightarrow> (int \<times> string) option" where
  "read_time s =
     (case read_digits 2 s of None \<Rightarrow> None | Some (h, s1) \<Rightarrow>
      case read_char CHR '':'' s1 of None \<Rightarrow> None | Some s2 \<Rightarrow>
      case read_digits 2 s2 of None \<Rightarrow> None | Some (mi, s3) \<Rightarrow>
      case read_char CHR '':'' s3 of None \<Rightarrow> None | Some s4 \<Rightarrow>
      case read_digits 2 s4 of None \<Rightarrow> None | Some (ss, s5) \<Rightarrow>
      case read_fraction s5 of None \<Rightarrow> None | Some (fr, s6) \<Rightarrow>
        if h \<le> 23 \<and> mi \<le> 59 \<and> ss \<le> 59
        then Some (h * 3600000 + mi * 60000 + ss * 1000 + fr, s6) else None)"

definition read_offset :: "int \<Rightarrow> string \<Rightarrow> int option" where
  "read_offset tz s =
     (if s = [] then Some tz
      else if s = ''Z'' then Some 0
      else case s of
        sign # rest \<Rightarrow>
          if sign = CHR ''+'' \<or> sign = CHR ''-'' then
            (case read_digits 2 rest of None \<Rightarrow> None | Some (h, s1) \<Rightarrow>
             case read_char CHR '':'' s1 of None \<Rightarrow> None | Some s2 \<Rightarrow>
             case read_digits 2 s2 of None \<Rightarrow> None | Some (mi, s3) \<Rightarrow>
               if s3 = [] \<and> h \<le> 23 \<and> mi \<le> 59
               then Some ((if sign = CHR ''-'' then - 1 else 1) * (h * 3600000 + mi * 60000))
               else None)
          else None)"

definition Date_parse :: "int \<Rightarrow> string \<Rightarrow> int option" where
  "Date_parse tz s =
     (case read_date s of None \<Rightarrow> None | Some (day_ms, s1) \<Rightarrow>
        if s1 = [] then Some day_ms
        else case read_char CHR ''T'' s1 of None \<Rightarrow> None | Some s2 \<Rightarrow>
             case read_time s2 of None \<Rightarrow> None | Some (time_ms, s3) \<Rightarrow>
             case read_offset tz s3 of None \<Rightarrow> None | Some off \<Rightarrow>
               Some (day_ms + time_ms - off))"

subsection \<open>Writing a date\<close>

definition pad :: "nat \<Rightarrow> int \<Rightarrow> string" where
  "pad n i = (let s = show_int i in replicate (n - length s) CHR ''0'' @ s)"

text \<open>\<open>toISOString()\<close>, for the years 0000 to 9999.\<close>

definition toISOString :: "int \<Rightarrow> string" where
  "toISOString t =
     (let (y, m, d) = civil_from_days (t div MS_PER_DAY);
          r = t mod MS_PER_DAY
      in pad 4 y @ ''-'' @ pad 2 m @ ''-'' @ pad 2 d @ ''T'' @ pad 2 (r div 3600000) @ '':''
         @ pad 2 (r mod 3600000 div 60000) @ '':'' @ pad 2 (r mod 60000 div 1000) @ ''.''
         @ pad 3 (r mod 1000) @ ''Z'')"

text \<open>\<open>s.split("T")[0]\<close>: the part of the string before its first \<open>T\<close>.\<close>

definition date_segment :: "string \<Rightarrow> string" where
  "date_segment s = takeWhile (\<lambda>c. c \<noteq> CHR ''T'') s"

subsection \<open>Local time\<close>

text \<open>
  \<open>getDay()\<close> (0 is Sunday; the epoch was a Thursday), \<open>setDate(getDate() - k)\<close>,
  \<open>setHours(h, m, 0, 0)\<close> and the short week-day name of the \<open>en-US\<close> locale, all in
  local time.
\<close>

definition local_day :: "int \<Rightarrow> int \<Rightarrow> int" where
  "local_day tz t = (t + tz) div MS_PER_DAY"

definition getDay :: "int \<Rightarrow> int \<Rightarrow> int" where
  "getDay tz t = (local_day tz t + 4) mod 7"

definition minus_days :: "int \<Rightarrow> int \<Rightarrow> int" where
  "minus_days t k = t - k * MS_PER_DAY"

definition setHours :: "int \<Rightarrow> int \<Rightarrow> int \<Rightarrow> int \<Rightarrow> int" where
  "setHours tz t h m = local_day tz t * MS_PER_DAY - tz + h * 3600000 + m * 60000"

definition weekday_short :: "int \<Rightarrow> int \<Rightarrow> string" where
  "weekday_short tz t =
     [''Sun'', ''Mon'', ''Tue'', ''Wed'', ''Thu'', ''Fri'', ''Sat''] ! nat (getDay tz t)"

section \<open>Clocking out\<close>

text \<open>
  The store stamps a new punch with its own clock and hands the instant out in UTC with
  the offset written \<open>+00:00\<close>.
\<close>

definition store_timestamp :: "int \<Rightarrow> string" where
  "store_timestamp t = butlast (toISOString t) @ ''+00:00''"

record clock_out =
  out_punch :: punch
  timeWorked :: string
  timeWorkedMs :: "int option"

text \<open>
  The elapsed time of \<^verbatim>\<open>clockOut\<close>: \<open>if (clockInTime)\<close> is false for \<open>null\<close> and for the
  empty string; an unreadable time makes the difference \<open>NaN\<close>, which \<open>formatDuration\<close>
  prints as \<open>NaN minutes\<close>.
\<close>

definition time_worked :: "int \<Rightarrow> int \<Rightarrow> string option \<Rightarrow> int option \<times> string" where
  "time_worked tz clockOutTime clockInTime_arg =
     (case clockInTime_arg of
        None \<Rightarrow> (Some 0, ''Unknown'')
      | Some s \<Rightarrow>
          if s = [] then (Some 0, ''Unknown'')
          else (case Date_parse tz s of
                  None \<Rightarrow> (None, ''NaN minutes'')
                | Some t \<Rightarrow> (Some (clockOutTime - t), formatDuration (clockOutTime - t))))"

definition clockOut ::
  "bool \<Rightarrow> int \<Rightarrow> app_state \<Rightarrow> string option \<Rightarrow> int \<Rightarrow> string
     \<Rightarrow> string \<Rightarrow> string option \<Rightarrow> clock_out result \<times> app_state" where
  "clockOut DEMO_MODE tz st fault now new_id workerId clockInTime_arg =
     (let (ms, formatted) = time_worked tz now clockInTime_arg in
      if DEMO_MODE then
        (Success \<lparr>out_punch = \<lparr>punch_id = ''demo-punch'', punch_worker_id = workerId,
                                punch_type = OUT, punch_timestamp = toISOString now\<rparr>,
                   timeWorked = formatted, timeWorkedMs = ms\<rparr>,
         st\<lparr>demoState := (demoState st)(workerId \<mapsto> \<lparr>isClockedIn = False, clockInTime = None\<rparr>)\<rparr>)
      else
        (case fault of
           Some err \<Rightarrow> (Failure ''Failed to clock out. Please try again.'', st)
         | None \<Rightarrow>
             (let data = \<lparr>punch_id = new_id, punch_worker_id = workerId, punch_type = OUT,
                          punch_timestamp = store_timestamp now\<rparr>
              in (Success \<lparr>out_punch = data, timeWorked = formatted, timeWorkedMs = ms\<rparr>,
                  st\<lparr>db := (db st)\<lparr>punches := punches (db st) @ [data]\<rparr>\<rparr>))))"

section \<open>Punch history\<close>

text \<open>
  A number that may be \<open>NaN\<close> is an \<^typ>\<open>int option\<close>, \<open>None\<close> being \<open>NaN\<close>; arithmetic
  with \<open>NaN\<close> gives \<open>NaN\<close>.
\<close>

definition num_sub :: "int option \<Rightarrow> int option \<Rightarrow> int option" where
  "num_sub a b = (case (a, b) of (Some x, Some y) \<Rightarrow> Some (x - y) | _ \<Rightarrow> None)"

definition num_add :: "int option \<Rightarrow> int option \<Rightarrow> int option" where
  "num_add a b = (case (a, b) of (Some x, Some y) \<Rightarrow> Some (x + y) | _ \<Rightarrow> None)"

record PunchPair =
  date :: string
  clockIn_ts :: "string option"
  clockOut_ts :: "string option"
  totalMs :: "int option"

subsection \<open>Grouping the fetched punches by date\<close>

text \<open>
  \<open>punchMap\<close> is a \<open>Map\<close>: it keeps its keys in insertion order, so it is an association
  list with distinct keys. One round of the loop adds the date when it is new and pushes
  the timestamp to the \<open>ins\<close> of the date for an \<open>IN\<close> punch and to its \<open>outs\<close> otherwise.
\<close>

type_synonym punch_map = "(string \<times> string list \<times> string list) list"

definition punchMap_add :: "punch_map \<Rightarrow> punch \<Rightarrow> punch_map" where
  "punchMap_add m p =
     (let d = date_segment (punch_timestamp p);
          m1 = (if map_of m d = None then m @ [(d, [], [])] else m)
      in map (\<lambda>(k, ins, outs).
                if k = d then
                  (if punch_type p = IN then (k, ins @ [punch_timestamp p], outs)
                   else (k, ins, outs @ [punch_timestamp p]))
                else (k, ins, outs)) m1)"

definition group_punches :: "punch list \<Rightarrow> punch_map" where
  "group_punches rows = foldl punchMap_add [] rows"

text \<open>
  \<open>ins[0] || null\<close> and \<open>outs[outs.length - 1] || null\<close>: an index out of range gives
  \<open>undefined\<close>, and \<open>||\<close> turns \<open>undefined\<close> and the empty string into \<open>null\<close>.
\<close>

definition or_null :: "string option \<Rightarrow> string option" where
  "or_null x = (case x of None \<Rightarrow> None | Some s \<Rightarrow> if s = [] then None else Some s)"

definition first_elem :: "'a list \<Rightarrow> 'a option" where
  "first_elem xs = (case xs of [] \<Rightarrow> None | x # _ \<Rightarrow> Some x)"

definition last_elem :: "'a list \<Rightarrow> 'a option" where
  "last_elem xs = (if xs = [] then None else Some (last xs))"

definition pair_of :: "int \<Rightarrow> string \<times> string list \<times> string list \<Rightarrow> PunchPair" where
  "pair_of tz e =
     (case e of (d, ins, outs) \<Rightarrow>
        let ci = or_null (first_elem ins);
            co = or_null (last_elem outs);
            diff = (case (ci, co) of
                       (Some i, Some out) \<Rightarrow> num_sub (Date_parse tz out) (Date_parse tz i)
                     | _ \<Rightarrow> Some 0)
        in \<lparr>date = d, clockIn_ts = ci, clockOut_ts = co, totalMs = diff\<rparr>)"

subsection \<open>Sorting\<close>

text \<open>
  \<open>a.localeCompare(b)\<close> is negative, zero or positive. The strings compared are the date
  segments \<open>YYYY-MM-DD\<close> of timestamps, on which the collation order is the order of the
  code units; that order is the model. \<open>Array.prototype.sort\<close> is stable: an insertion
  sort that puts an element before the first one it does not exceed.
\<close>

definition localeCompare :: "string \<Rightarrow> string \<Rightarrow> int" where
  "localeCompare a b = (if a < b then - 1 else if a = b then 0 else 1)"

fun insert_by :: "('a \<Rightarrow> 'a \<Rightarrow> int) \<Rightarrow> 'a \<Rightarrow> 'a list \<Rightarrow> 'a list" where
  "insert_by cmp x [] = [x]"
| "insert_by cmp x (y # ys) = (if cmp x y \<le> 0 then x # y # ys else y # insert_by cmp x ys)"

definition sort_by :: "('a \<Rightarrow> 'a \<Rightarrow> int) \<Rightarrow> 'a list \<Rightarrow> 'a list" where
  "sort_by cmp xs = foldr (insert_by cmp) xs []"

subsection \<open>getPunchHistory\<close>

text \<open>
  The demo branch invents a history for the last \<open>min(days, 7)\<close> days, week-ends left
  out; \<open>rnd k\<close> is the value of the \<open>k\<close>-th call of \<open>Math.random()\<close>.
\<close>

fun demo_history :: "int \<Rightarrow> int \<Rightarrow> (nat \<Rightarrow> real) \<Rightarrow> nat \<Rightarrow> int list \<Rightarrow> PunchPair list" where
  "demo_history tz now rnd k [] = []"
| "demo_history tz now rnd k (i # rest) =
     (let d = minus_days now i in
      if getDay tz d \<noteq> 0 \<and> getDay tz d \<noteq> 6 then
        (let ci = setHours tz d 8 \<lfloor>rnd k * 15\<rfloor>;
             co = setHours tz d 16 \<lfloor>rnd (k + 1) * 45\<rfloor>
         in \<lparr>date = date_segment (toISOString d), clockIn_ts = Some (toISOString ci),
              clockOut_ts = Some (toISOString co), totalMs = Some (co - ci)\<rparr>
            # demo_history tz now rnd (k + 2) rest)
      else demo_history tz now rnd k rest)"

text \<open>
  In store mode the punches of the worker at or after the start date are fetched in
  ascending order of their timestamps; \<open>fetched\<close> is the answer of the store to that
  query, an error or the rows.
\<close>

definition getPunchHistory ::
  "bool \<Rightarrow> int \<Rightarrow> int \<Rightarrow> (nat \<Rightarrow> real) \<Rightarrow> string + punch list
     \<Rightarrow> string \<Rightarrow> int \<Rightarrow> PunchPair list result" where
  "getPunchHistory DEMO_MODE tz now rnd fetched workerId days =
     (if DEMO_MODE then Success (demo_history tz now rnd 0 [1..min days 7])
      else
        (case fetched of
           Inl err \<Rightarrow> Failure ''Failed to load punch history.''
         | Inr data \<Rightarrow>
             Success (sort_by (\<lambda>a b. localeCompare (date b) (date a))
                        (map (pair_of tz) (group_punches data)))))"

text \<open>
  What the pairing is specified to compute: the timestamps of the \<open>IN\<close> punches of a
  date, and of its other punches, in fetched order.
\<close>

definition punch_date :: "punch \<Rightarrow> string" where
  "punch_date p = date_segment (punch_timestamp p)"

definition ins_of :: "punch list \<Rightarrow> string \<Rightarrow> string list" where
  "ins_of rows d =
     map punch_timestamp (filter (\<lambda>p. punch_date p = d \<and> punch_type p = IN) rows)"

definition outs_of :: "punch list \<Rightarrow> string \<Rightarrow> string list" where
  "outs_of rows d =
     map punch_timestamp (filter (\<lambda>p. punch_date p = d \<and> punch_type p \<noteq> IN) rows)"

text \<open>The dates that have a punch, in the order of their first punch.\<close>

definition first_dates :: "punch list \<Rightarrow> string list" where
  "first_dates rows = rev (remdups (rev (map punch_date rows)))"

section \<open>Weekly hours\<close>

text \<open>
  Hours are quotients of numbers, modelled as exact reals; \<open>None\<close> is \<open>NaN\<close> again.
  \<open>x || 0\<close> is 0 for a missing entry, for \<open>NaN\<close> and for 0, and \<open>x\<close> otherwise.
\<close>

definition hours :: "int option \<Rightarrow> real option" where
  "hours ms = (case ms of None \<Rightarrow> None | Some x \<Rightarrow> Some (real_of_int x / (1000 * 60 * 60)))"

definition or_zero :: "real option option \<Rightarrow> real" where
  "or_zero x = (case x of Some (Some v) \<Rightarrow> v | _ \<Rightarrow> 0)"

definition add_hours :: "real \<Rightarrow> real option \<Rightarrow> real option" where
  "add_hours a b = (case b of None \<Rightarrow> None | Some y \<Rightarrow> Some (a + y))"

record weekly_hours =
  weekTotalMs :: "int option"
  totalHours :: "real option"
  dailyHours :: "string \<rightharpoonup> real option"

text \<open>
  The start of the week: local midnight of the day \<open>dayOfWeek - 1\<close> days before today,
  six days before when today is a Sunday.
\<close>

definition startOfWeek :: "int \<Rightarrow> int \<Rightarrow> int" where
  "startOfWeek tz now =
     (let dayOfWeek = getDay tz now
      in setHours tz (minus_days now (if dayOfWeek = 0 then 6 else dayOfWeek - 1)) 0 0)"

text \<open>
  One round of the loop over the history. \<open>new Date(punch.date)\<close> reads the date-only
  string, that is as UTC midnight; the comparison with the start of the week is one of
  time values and is false for an invalid date; the name of the day is the local one.
\<close>

definition weekly_step ::
  "int \<Rightarrow> int \<Rightarrow> int option \<times> (string \<rightharpoonup> real option) \<Rightarrow> PunchPair
     \<Rightarrow> int option \<times> (string \<rightharpoonup> real option)" where
  "weekly_step tz start acc punch =
     (case acc of (sum_ms, daily) \<Rightarrow>
        (case Date_parse tz (date punch) of
           None \<Rightarrow> (sum_ms, daily)
         | Some punchDate \<Rightarrow>
             if punchDate \<ge> start then
               (let dayName = weekday_short tz punchDate
                in (num_add sum_ms (totalMs punch),
                    daily(dayName \<mapsto> add_hours (or_zero (daily dayName)) (hours (totalMs punch)))))
             else (sum_ms, daily)))"

definition getWeeklyHours ::
  "bool \<Rightarrow> int \<Rightarrow> int \<Rightarrow> (nat \<Rightarrow> real) \<Rightarrow> string + punch list \<Rightarrow> string \<Rightarrow> weekly_hours" where
  "getWeeklyHours DEMO_MODE tz now rnd fetched workerId =
     (case getPunchHistory DEMO_MODE tz now rnd fetched workerId 7 of
        Failure err \<Rightarrow> \<lparr>weekTotalMs = Some 0, totalHours = Some 0, dailyHours = Map.empty\<rparr>
      | Success history \<Rightarrow>
          (case foldl (weekly_step tz (startOfWeek tz now)) (Some 0, Map.empty) history of
             (sum_ms, daily) \<Rightarrow>
               \<lparr>weekTotalMs = sum_ms, totalHours = hours sum_ms, dailyHours = daily\<rparr>))"

text \<open>
  What the aggregation is specified to keep: the pairs whose calendar date is the date
  of the week start or a later one. The calendar date of a pair is the day its date
  string names; the date of the week start is the local day of its instant.
\<close>

definition pair_day :: "PunchPair \<Rightarrow> int option" where
  "pair_day pp = (case read_date (date pp) of Some (day_ms, []) \<Rightarrow> Some (day_ms div MS_PER_DAY) | _ \<Rightarrow> None)"

definition week_start_day :: "int \<Rightarrow> int \<Rightarrow> int" where
  "week_start_day tz now = local_day tz (startOfWeek tz now)"

definition on_or_after_week_start :: "int \<Rightarrow> int \<Rightarrow> PunchPair \<Rightarrow> bool" where
  "on_or_after_week_start tz now pp =
     (case pair_day pp of None \<Rightarrow> False | Some d \<Rightarrow> week_start_day tz now \<le> d)"

section \<open>Time-off requests\<close>

text \<open>
  A request as \<^verbatim>\<open>TimeOffRequestData\<close> has it. The optional properties \<open>worker_name\<close> and
  \<open>reviewer_name\<close> are \<open>None\<close> when absent or null. \<open>created_at\<close> and \<open>reviewed_at\<close> are
  instants (epoch milliseconds): the store orders by the instant, and the ISO rendering
  plays no part in the workflow.
\<close>

datatype TimeOffType = vacation | personal | sick | bereavement | unpaid

datatype RequestStatus = pending | approved | denied

record TimeOffRequestData =
  req_id :: string
  worker_id :: string
  worker_name :: "string option"
  req_type :: TimeOffType
  start_date :: string
  end_date :: string
  paid_hours :: real
  unpaid_hours :: real
  is_excused :: bool
  is_planned :: bool
  comments :: "string option"
  status :: RequestStatus
  reviewed_by :: "string option"
  reviewer_name :: "string option"
  reviewed_at :: "int option"
  denial_reason :: "string option"
  created_at :: int

text \<open>What a worker submits.\<close>

record request_input =
  in_type :: TimeOffType
  in_start_date :: string
  in_end_date :: string
  in_paid_hours :: real
  in_unpaid_hours :: real
  in_comments :: "string option"

text \<open>
  The module state: the demo list \<open>DEMO_REQUESTS\<close>, and of the persisted store the table
  \<open>time_off_requests\<close> and the names of the workers by id, which the listings join in.
\<close>

record timeoff_state =
  DEMO_REQUESTS :: "TimeOffRequestData list"
  time_off_requests :: "TimeOffRequestData list"
  worker_names :: "string \<rightharpoonup> string"

definition createDemoRequest :: "int \<Rightarrow> string \<Rightarrow> request_input \<Rightarrow> TimeOffRequestData" where
  "createDemoRequest now workerId data =
     \<lparr>req_id = ''demo-req-'' @ show_int now, worker_id = workerId, worker_name = None,
      req_type = in_type data, start_date = in_start_date data, end_date = in_end_date data,
      paid_hours = in_paid_hours data, unpaid_hours = in_unpaid_hours data,
      is_excused = True, is_planned = True, comments = or_null (in_comments data),
      status = pending, reviewed_by = None, reviewer_name = None, reviewed_at = None,
      denial_reason = None, created_at = now\<rparr>"

text \<open>
  The row the store makes of an insert: it generates the id and the creation time and
  fills the defaults (excused, planned, pending).
\<close>

definition inserted_row :: "int \<Rightarrow> string \<Rightarrow> string \<Rightarrow> request_input \<Rightarrow> TimeOffRequestData" where
  "inserted_row now new_id workerId data =
     \<lparr>req_id = new_id, worker_id = workerId, worker_name = None,
      req_type = in_type data, start_date = in_start_date data, end_date = in_end_date data,
      paid_hours = in_paid_hours data, unpaid_hours = in_unpaid_hours data,
      is_excused = True, is_planned = True, comments = or_null (in_comments data),
      status = pending, reviewed_by = None, reviewer_name = None, reviewed_at = None,
      denial_reason = None, created_at = now\<rparr>"

text \<open>
  \<^verbatim>\<open>submitTimeOffRequest\<close>. \<open>DEMO_MODE\<close> stands for \<open>isDemoMode() || !supabase\<close>, the
  client being absent exactly in demo mode. A failed insert (\<open>fault\<close>) falls back to a
  demo record.
\<close>

definition submitTimeOffRequest ::
  "bool \<Rightarrow> timeoff_state \<Rightarrow> string option \<Rightarrow> int \<Rightarrow> string \<Rightarrow> string \<Rightarrow> request_input
     \<Rightarrow> TimeOffRequestData result \<times> timeoff_state" where
  "submitTimeOffRequest DEMO_MODE st fault now new_id workerId data =
     (if DEMO_MODE \<or> fault \<noteq> None then
        (let newRequest = createDemoRequest now workerId data
         in (Success newRequest, st\<lparr>DEMO_REQUESTS := newRequest # DEMO_REQUESTS st\<rparr>))
      else
        (let row = inserted_row now new_id workerId data
         in (Success row, st\<lparr>time_off_requests := time_off_requests st @ [row]\<rparr>)))"

subsection \<open>Listings\<close>

text \<open>
  \<open>order("created_at")\<close>: the store does not determine the order of rows created at the
  same instant; the model takes the order of a stable sort. The joins add the names:
  \<open>r.worker?.full_name || "Unknown"\<close> and \<open>r.reviewer?.full_name || null\<close>.
\<close>

definition oldest_first :: "TimeOffRequestData list \<Rightarrow> TimeOffRequestData list" where
  "oldest_first rows = sort_key created_at rows"

definition newest_first :: "TimeOffRequestData list \<Rightarrow> TimeOffRequestData list" where
  "newest_first rows = rev (sort_key created_at rows)"

definition with_worker_name :: "timeoff_state \<Rightarrow> TimeOffRequestData \<Rightarrow> TimeOffRequestData" where
  "with_worker_name st r =
     r\<lparr>worker_name := Some (case or_null (worker_names st (worker_id r)) of
                              None \<Rightarrow> ''Unknown'' | Some n \<Rightarrow> n)\<rparr>"

definition with_reviewer_name :: "timeoff_state \<Rightarrow> TimeOffRequestData \<Rightarrow> TimeOffRequestData" where
  "with_reviewer_name st r =
     r\<lparr>reviewer_name := (case reviewed_by r of
                           None \<Rightarrow> None | Some m \<Rightarrow> or_null (worker_names st m))\<rparr>"

definition getMyTimeOffRequests ::
  "bool \<Rightarrow> timeoff_state \<Rightarrow> string option \<Rightarrow> string \<Rightarrow> TimeOffRequestData list" where
  "getMyTimeOffRequests DEMO_MODE st fault workerId =
     (if DEMO_MODE \<or> fault \<noteq> None then filter (\<lambda>r. worker_id r = workerId) (DEMO_REQUESTS st)
      else map (with_reviewer_name st)
             (newest_first (filter (\<lambda>r. worker_id r = workerId) (time_off_requests st))))"

definition getAllPendingRequests ::
  "bool \<Rightarrow> timeoff_state \<Rightarrow> string option \<Rightarrow> TimeOffRequestData list" where
  "getAllPendingRequests DEMO_MODE st fault =
     (if DEMO_MODE \<or> fault \<noteq> None then filter (\<lambda>r. status r = pending) (DEMO_REQUESTS st)
      else map (with_worker_name st)
             (oldest_first (filter (\<lambda>r. status r = pending) (time_off_requests st))))"

definition getAllTimeOffRequests ::
  "bool \<Rightarrow> timeoff_state \<Rightarrow> string option \<Rightarrow> TimeOffRequestData list" where
  "getAllTimeOffRequests DEMO_MODE st fault =
     (if DEMO_MODE \<or> fault \<noteq> None then DEMO_REQUESTS st
      else map (\<lambda>r. with_reviewer_name st (with_worker_name st r))
             (take 50 (newest_first (time_off_requests st))))"

subsection \<open>Review\<close>

text \<open>
  The changes a review makes to a request: \<open>{ ...r, ...updates }\<close> in the demo list,
  \<open>update(...).eq("id", requestId)\<close> in the store.
\<close>

definition approve_updates :: "int \<Rightarrow> string \<Rightarrow> TimeOffRequestData \<Rightarrow> TimeOffRequestData" where
  "approve_updates now managerId r =
     r\<lparr>status := approved, reviewed_by := Some managerId, reviewed_at := Some now\<rparr>"

definition deny_updates ::
  "int \<Rightarrow> string \<Rightarrow> string option \<Rightarrow> TimeOffRequestData \<Rightarrow> TimeOffRequestData" where
  "deny_updates now managerId reason r =
     r\<lparr>status := denied, reviewed_by := Some managerId, reviewed_at := Some now,
       denial_reason := or_null reason\<rparr>"

definition update_where_id ::
  "string \<Rightarrow> (TimeOffRequestData \<Rightarrow> TimeOffRequestData) \<Rightarrow> TimeOffRequestData list
     \<Rightarrow> TimeOffRequestData list" where
  "update_where_id requestId updates rows =
     map (\<lambda>r. if req_id r = requestId then updates r else r) rows"

definition updateDemoRequest ::
  "string \<Rightarrow> (TimeOffRequestData \<Rightarrow> TimeOffRequestData) \<Rightarrow> timeoff_state \<Rightarrow> timeoff_state" where
  "updateDemoRequest requestId updates st =
     st\<lparr>DEMO_REQUESTS := update_where_id requestId updates (DEMO_REQUESTS st)\<rparr>"

definition startsWith :: "string \<Rightarrow> string \<Rightarrow> bool" where
  "startsWith s p = (take (length p) s = p)"

text \<open>
  \<^verbatim>\<open>approveRequest\<close> and \<^verbatim>\<open>denyRequest\<close> always answer \<open>{ success: true }\<close>; what they
  change is the state. A failed update of the store (\<open>fault\<close>) falls back to the demo
  list.
\<close>

definition approveRequest ::
  "bool \<Rightarrow> timeoff_state \<Rightarrow> string option \<Rightarrow> int \<Rightarrow> string \<Rightarrow> string \<Rightarrow> timeoff_state" where
  "approveRequest DEMO_MODE st fault now requestId managerId =
     (let updates = approve_updates now managerId in
      if DEMO_MODE \<or> startsWith requestId ''demo-'' then updateDemoRequest requestId updates st
      else if fault \<noteq> None then updateDemoRequest requestId updates st
      else st\<lparr>time_off_requests :=
                update_where_id requestId (approve_updates now managerId) (time_off_requests st)\<rparr>)"

definition denyRequest ::
  "bool \<Rightarrow> timeoff_state \<Rightarrow> string option \<Rightarrow> int \<Rightarrow> string \<Rightarrow> string \<Rightarrow> string option
     \<Rightarrow> timeoff_state" where
  "denyRequest DEMO_MODE st fault now requestId managerId reason =
     (let updates = deny_updates now managerId reason in
      if DEMO_MODE \<or> startsWith requestId ''demo-'' then updateDemoRequest requestId updates st
      else if fault \<noteq> None then updateDemoRequest requestId updates st
      else st\<lparr>time_off_requests :=
                update_where_id requestId (deny_updates now managerId reason) (time_off_requests st)\<rparr>)"

text \<open>A sequence of workflow operations, each with what its environment supplies.\<close>

datatype workflow_op =
  Submit "string option" int string string request_input
| Approve "string option" int string string
| Deny "string option" int string string "string option"

fun workflow_step :: "bool \<Rightarrow> timeoff_state \<Rightarrow> workflow_op \<Rightarrow> timeoff_state" where
  "workflow_step DEMO_MODE st (Submit fault now new_id workerId data) =
     snd (submitTimeOffRequest DEMO_MODE st fault now new_id workerId data)"
| "workflow_step DEMO_MODE st (Approve fault now requestId managerId) =
     approveRequest DEMO_MODE st fault now requestId managerId"
| "workflow_step DEMO_MODE st (Deny fault now requestId managerId reason) =
     denyRequest DEMO_MODE st fault now requestId managerId reason"

definition workflow :: "bool \<Rightarrow> timeoff_state \<Rightarrow> workflow_op list \<Rightarrow> timeoff_state" where
  "workflow DEMO_MODE st ops = foldl (workflow_step DEMO_MODE) st ops"

text \<open>The number of submissions in a sequence of operations.\<close>

definition submissions :: "workflow_op list \<Rightarrow> nat" where
  "submissions ops =
     length (filter (\<lambda>op. case op of Submit _ _ _ _ _ \<Rightarrow> True | _ \<Rightarrow> False) ops)"

text \<open>
  All the requests on record, and the shape of their ids: \<^verbatim>\<open>createDemoRequest\<close> names
  its records \<open>demo-req-...\<close>, the store generates UUIDs.
\<close>

definition all_requests :: "timeoff_state \<Rightarrow> TimeOffRequestData list" where
  "all_requests st = DEMO_REQUESTS st @ time_off_requests st"

definition ids_ok :: "timeoff_state \<Rightarrow> bool" where
  "ids_ok st \<longleftrightarrow>
     list_all (\<lambda>r. startsWith (req_id r) ''demo-'') (DEMO_REQUESTS st)
     \<and> list_all (\<lambda>r. \<not> startsWith (req_id r) ''demo-'') (time_off_requests st)"

text \<open>
  A request keeps its id and, once reviewed, stays reviewed; a state extends another
  when the requests of the other are still on record, in place, each in that relation,
  new ones joining the demo list at its head and the table at its end.
\<close>

definition stays_reviewed :: "TimeOffRequestData \<Rightarrow> TimeOffRequestData \<Rightarrow> bool" where
  "stays_reviewed r r' \<longleftrightarrow> req_id r' = req_id r \<and> (status r \<noteq> pending \<longrightarrow> status r' \<noteq> pending)"

definition extends_reviewed :: "timeoff_state \<Rightarrow> timeoff_state \<Rightarrow> bool" where
  "extends_reviewed st st' \<longleftrightarrow>
     (\<exists>demo_new demo_old store_old store_new.
        DEMO_REQUESTS st' = demo_new @ demo_old
      \<and> time_off_requests st' = store_old @ store_new
      \<and> list_all2 stays_reviewed (DEMO_REQUESTS st) demo_old
      \<and> list_all2 stays_reviewed (time_off_requests st) store_old)"

section \<open>Concrete states used in the examples\<close>

definition two_workers_state :: app_state where
  "two_workers_state = \<lparr>DEMO_WORKERS = initial_DEMO_WORKERS, demoState = Map.empty,
     demoVerificationCodes = Map.empty,
     db = \<lparr>workers = [\<lparr>w_id = ''u1'', full_name = ''Ann Lee'', role = ''worker'', pin = ''111111'', is_active = Some True\<rparr>,
                      \<lparr>w_id = ''u2'', full_name = ''Bo Chen'', role = ''worker'', pin = ''222222'', is_active = Some False\<rparr>],
           punches = [], verification_codes = []\<rparr>\<rparr>"

definition initial_state :: app_state where
  "initial_state = \<lparr>DEMO_WORKERS = initial_DEMO_WORKERS, demoState = Map.empty,
     demoVerificationCodes = Map.empty,
     db = \<lparr>workers = [], punches = [], verification_codes = []\<rparr>\<rparr>"

definition code_row :: verification_code where
  "code_row = \<lparr>vc_id = ''c1'', vc_worker_id = ''u1'', vc_code = ''654321'',
                vc_expires_at = 600000, vc_used_at = None, vc_created_at = 0\<rparr>"

definition one_code_state :: app_state where
  "one_code_state = \<lparr>DEMO_WORKERS = initial_DEMO_WORKERS, demoState = Map.empty,
     demoVerificationCodes = Map.empty,
     db = \<lparr>workers = [], punches = [], verification_codes = [code_row]\<rparr>\<rparr>"

definition mk_punch :: "punch_type \<Rightarrow> string \<Rightarrow> punch" where
  "mk_punch ty ts = \<lparr>punch_id = ''p'', punch_worker_id = ''u1'', punch_type = ty, punch_timestamp = ts\<rparr>"

definition example_punches :: "punch list" where
  "example_punches =
     [mk_punch OUT ''2024-01-15T02:00:00+00:00'',
      mk_punch IN ''2024-01-15T22:00:00+00:00'',
      mk_punch IN ''2024-01-16T08:05:00+00:00'',
      mk_punch OUT ''2024-01-16T12:00:00+00:00'',
      mk_punch IN ''2024-01-16T12:30:00+00:00'',
      mk_punch OUT ''2024-01-16T16:40:00.123456+00:00'',
      mk_punch IN ''2024-01-17T09:00:00+00:00'']"

text \<open>
  A worker five hours west of Greenwich works Monday 15 and Tuesday 16 January 2024 from
  8:00 to 16:00 local time and looks at the weekly hours on Wednesday 17 at noon.
\<close>

definition week_punches :: "punch list" where
  "week_punches =
     [mk_punch IN ''2024-01-15T13:00:00+00:00'',
      mk_punch OUT ''2024-01-15T21:00:00+00:00'',
      mk_punch IN ''2024-01-16T13:00:00+00:00'',
      mk_punch OUT ''2024-01-16T21:00:00+00:00'']"

definition wednesday_noon :: int where
  "wednesday_noon = 1705510800000"

definition five_hours_west :: int where
  "five_hours_west = - 18000000"

definition no_draws :: "nat \<Rightarrow> real" where
  "no_draws k = 0"

definition monday_pair :: PunchPair where
  "monday_pair = \<lparr>date = ''2024-01-15'', clockIn_ts = Some ''2024-01-15T13:00:00+00:00'',
                   clockOut_ts = Some ''2024-01-15T21:00:00+00:00'', totalMs = Some 28800000\<rparr>"

definition tuesday_pair :: PunchPair where
  "tuesday_pair = \<lparr>date = ''2024-01-16'', clockIn_ts = Some ''2024-01-16T13:00:00+00:00'',
                    clockOut_ts = Some ''2024-01-16T21:00:00+00:00'', totalMs = Some 28800000\<rparr>"

text \<open>Two requests submitted one after the other, starting from nothing.\<close>

definition empty_timeoff :: timeoff_state where
  "empty_timeoff = \<lparr>DEMO_REQUESTS = [], time_off_requests = [], worker_names = Map.empty\<rparr>"

definition vacation_input :: request_input where
  "vacation_input = \<lparr>in_type = vacation, in_start_date = ''2024-02-01'',
     in_end_date = ''2024-02-02'', in_paid_hours = 16, in_unpaid_hours = 0, in_comments = None\<rparr>"

definition two_submitted :: "bool \<Rightarrow> timeoff_state" where
  "two_submitted DEMO_MODE =
     snd (submitTimeOffRequest DEMO_MODE
            (snd (submitTimeOffRequest DEMO_MODE empty_timeoff None 1000 ''a1'' ''u1'' vacation_input))
            None 2000 ''a2'' ''u2'' vacation_input)"

text \<open>The older of the two demo requests is denied; later it is approved.\<close>

definition once_denied :: timeoff_state where
  "once_denied = denyRequest True (two_submitted True) None 3000 ''demo-req-1000'' ''m1'' None"

definition review_again :: "workflow_op list" where
  "review_again =
     [Approve None 4000 ''demo-req-1000'' ''m2'', Submit None 5000 ''a3'' ''u3'' vacation_input]"

text \<open>One request submitted to the store.\<close>

definition one_stored :: timeoff_state where
  "one_stored =
     snd (submitTimeOffRequest False empty_timeoff None 1000 ''a1'' ''u1'' vacation_input)"

section \<open>Verification\<close>

subsection \<open>Properties of the duration formatter\<close>

lemma mod_mult_div_eq:
  fixes a b c :: int
  assumes "0 < b" and "0 < c"
  shows "a mod (b * c) div b = a div b mod c"
proof -
  have "a mod (b * c) = b * (a div b mod c) + a mod b"
    using assms(2) by (simp add: zmod_zmult2_eq)
  then have "a mod (b * c) div b = (b * (a div b mod c) + a mod b) div b"
    by simp
  also have "\<dots> = a div b mod c"
    using assms(1) by simp
  finally show ?thesis .
qed

lemma formatDuration_hours: "(ms div 1000) div 3600 = (ms :: int) div 3600000"
  by (simp add: div_mult2_eq [symmetric])

lemma minutes_of_seconds: "(ms div 1000) div 60 = (ms :: int) div 60000"
  by (simp add: div_mult2_eq [symmetric])

lemma formatDuration_minutes:
  assumes "0 \<le> (ms :: int)"
  shows "js_rem (ms div 1000) 3600 div 60 = (ms mod 3600000) div 60000"
proof -
  have nonneg: "0 \<le> ms div 1000"
    using assms by simp
  have "(ms div 1000) mod 3600 div 60 = (ms div 1000) div 60 mod 60"
    using mod_mult_div_eq [of 60 60 "ms div 1000"] by simp
  also have "\<dots> = ms div 60000 mod 60"
    by (simp only: minutes_of_seconds)
  also have "\<dots> = (ms mod 3600000) div 60000"
    using mod_mult_div_eq [of 60000 60 ms] by simp
  finally show ?thesis
    using nonneg by (simp add: js_rem_def)
qed

lemma whole_minutes_bounds:
  fixes ms :: int
  shows "ms div 3600000 * 3600000 + (ms mod 3600000) div 60000 * 60000 \<le> ms"
    and "ms < ms div 3600000 * 3600000 + ((ms mod 3600000) div 60000 + 1) * 60000"
proof -
  define h r m s where "h = ms div 3600000" and "r = ms mod 3600000"
    and "m = r div 60000" and "s = r mod 60000"
  have whole: "ms = h * 3600000 + r"
    by (simp add: h_def r_def)
  have rest: "r = m * 60000 + s"
    by (simp add: m_def s_def)
  have sec: "0 \<le> s" "s < 60000"
    by (simp_all add: s_def)
  have "h * 3600000 + m * 60000 \<le> ms"
    using whole rest sec by linarith
  then show "ms div 3600000 * 3600000 + (ms mod 3600000) div 60000 * 60000 \<le> ms"
    by (simp add: h_def m_def r_def)
  have "ms < h * 3600000 + m * 60000 + 60000"
    using whole rest sec by linarith
  then show "ms < ms div 3600000 * 3600000 + ((ms mod 3600000) div 60000 + 1) * 60000"
    by (simp add: h_def m_def r_def distrib_right)
qed

lemma whole_minutes_range:
  fixes ms :: int
  shows "0 \<le> (ms mod 3600000) div 60000" and "(ms mod 3600000) div 60000 < 60"
  using mod_mult_div_eq [of 60000 60 ms] by simp_all

text \<open>
  Where the double quotient has bits to spare, its floor is the floor of the exact
  quotient: the quotient is below \<open>2 ^ j\<close> and the divisor below \<open>2 ^ (54 - j)\<close>.
\<close>

lemma bit_len_le: "n < 2 ^ j \<Longrightarrow> bit_len n \<le> j"
proof (induction j arbitrary: n)
  case 0
  then show ?case by (simp add: bit_len.simps)
next
  case (Suc j)
  show ?case
  proof (cases "n = 0")
    case True
    then show ?thesis by (simp add: bit_len.simps)
  next
    case False
    from Suc.prems have "n div 2 < 2 ^ j" by simp
    then have "bit_len (n div 2) \<le> j" by (rule Suc.IH)
    with False show ?thesis by (simp add: bit_len.simps [of n])
  qed
qed

lemma binary_exponent_le:
  assumes "0 < a" and "0 < b" and "a div b < 2 ^ j" and "1 \<le> j"
  shows "binary_exponent a b \<le> int j - 1"
proof (cases "b \<le> a")
  case True
  have "0 \<le> a div b"
    using assms(1,2) by (simp add: pos_imp_zdiv_nonneg_iff)
  then have "nat (a div b) < 2 ^ j"
    using assms(3) by (simp add: nat_less_iff)
  then have "bit_len (nat (a div b)) \<le> j"
    by (rule bit_len_le)
  with True show ?thesis
    by (simp add: binary_exponent_def)
next
  case False
  with assms(4) show ?thesis
    by (simp add: binary_exponent_def)
qed

lemma nearest_even_bounds:
  shows "n div d \<le> nearest_even n d"
    and "nearest_even n d \<le> n div d + 1"
    and "nearest_even n d \<noteq> n div d \<Longrightarrow> d \<le> 2 * (n mod d)"
  by (auto simp: nearest_even_def Let_def split: if_splits)

lemma nearest_even_below:
  fixes r0 b P :: int
  assumes "0 \<le> r0" and "r0 < b" and "0 < P" and "b < 2 * P"
  shows "0 \<le> nearest_even (r0 * P) b" and "nearest_even (r0 * P) b < P"
proof -
  define X d r where "X = r0 * P" and "d = X div b" and "r = X mod b"
  have b: "0 < b" using assms(1,2) by simp
  have X0: "0 \<le> X" using assms(1,3) by (simp add: X_def)
  have split: "X = d * b + r" by (simp add: d_def r_def)
  have r: "0 \<le> r" "r < b" using b by (simp_all add: r_def)
  have d0: "0 \<le> d" using X0 b by (simp add: d_def pos_imp_zdiv_nonneg_iff)
  have "r0 + 1 \<le> b" using assms(2) by simp
  then have "(r0 + 1) * P \<le> b * P" using assms(3) by (simp only: mult_right_mono less_imp_le)
  then have XZ: "X + P \<le> b * P" by (simp add: X_def algebra_simps)
  show "0 \<le> nearest_even (r0 * P) b"
    using nearest_even_bounds(1) [of X b] d0 by (simp add: X_def d_def)
  show "nearest_even (r0 * P) b < P"
  proof (cases "nearest_even X b = d")
    case True
    have "d < P"
    proof (rule ccontr)
      assume "\<not> d < P"
      then have "P \<le> d" by simp
      then have "P * b \<le> d * b" using b by (simp only: mult_right_mono less_imp_le)
      with split r XZ assms(3) mult.commute [of b P] show False by linarith
    qed
    with True show ?thesis by (simp add: X_def)
  next
    case False
    then have half: "b \<le> 2 * r"
      using nearest_even_bounds(3) [of X b] by (simp add: d_def r_def)
    have le: "nearest_even X b \<le> d + 1"
      using nearest_even_bounds(2) [of X b] by (simp add: d_def)
    have "d + 1 < P"
    proof (rule ccontr)
      assume "\<not> d + 1 < P"
      then have "P \<le> d + 1" by simp
      then have "P * b \<le> (d + 1) * b" using b by (simp only: mult_right_mono less_imp_le)
      then have "b * P \<le> d * b + b" by (simp add: algebra_simps)
      with split r XZ half assms(4) mult.commute [of b P] show False by linarith
    qed
    with le show ?thesis by (simp add: X_def)
  qed
qed

lemma floor_quotient_exact:
  assumes "0 \<le> a" and "0 < b" and "a div b < 2 ^ j" and "1 \<le> j" and "j \<le> 53"
    and "b < 2 ^ (54 - j)"
  shows "floor_quotient a b = a div b"
proof (cases "a = 0")
  case True
  then show ?thesis by (simp add: floor_quotient_def)
next
  case False
  with assms(1) have a: "0 < a" by simp
  define s where "s = 52 - binary_exponent a b"
  define P :: int where "P = 2 ^ nat s"
  define k r0 where "k = a div b" and "r0 = a mod b"
  have e: "binary_exponent a b \<le> int j - 1"
    using a assms(2,3,4) by (rule binary_exponent_le)
  then have s: "53 - int j \<le> s"
    by (simp add: s_def)
  with assms(5) have s0: "0 \<le> s" by simp
  have P0: "0 < P" by (simp add: P_def)
  have "53 - j \<le> nat s" using s by simp
  then have "(2::int) ^ (53 - j) \<le> 2 ^ nat s"
    by (simp only: power_increasing one_le_numeral)
  then have "2 * (2::int) ^ (53 - j) \<le> 2 * P" by (simp add: P_def)
  moreover have "2 * (2::int) ^ (53 - j) = 2 ^ (54 - j)"
    using assms(5) by (simp add: power_Suc [symmetric] Suc_diff_le del: power_Suc)
  ultimately have bP: "b < 2 * P" using assms(6) by simp
  have r0: "0 \<le> r0" "r0 < b" using assms(2) by (simp_all add: r0_def)
  have "a = k * b + r0" by (simp add: k_def r0_def)
  then have aP: "a * P = (k * P) * b + r0 * P" by (simp add: algebra_simps)
  have dv: "(a * P) div b = k * P + (r0 * P) div b"
    unfolding aP using assms(2) by simp
  have md: "(a * P) mod b = (r0 * P) mod b"
    unfolding aP by simp
  have tie: "even (k * P)" if "2 * ((r0 * P) mod b) = b"
  proof -
    define t where "t = (r0 * P) mod b"
    from that have "b = 2 * t" by (simp add: t_def)
    with assms(2) have "2 \<le> b" by presburger
    with bP have "1 < P" by simp
    then have "nat s \<noteq> 0" by (auto simp: P_def intro: ccontr)
    then have "even P" by (simp add: P_def)
    then show ?thesis by simp
  qed
  have ne: "nearest_even (a * P) b = k * P + nearest_even (r0 * P) b"
    unfolding nearest_even_def Let_def dv md
    using tie by auto
  have m: "0 \<le> nearest_even (r0 * P) b" "nearest_even (r0 * P) b < P"
    using nearest_even_below [OF r0 P0 bP] by simp_all
  have "floor_quotient a b = nearest_even (a * P) b div P"
    using a s0 by (simp add: floor_quotient_def Let_def s_def [symmetric] P_def)
  also have "\<dots> = k"
    unfolding ne using m P0 by (simp add: div_pos_pos_trivial)
  finally show ?thesis by (simp add: k_def)
qed

lemma div_less_bound:
  fixes a b c :: int
  assumes "0 < b" and "a < c * b"
  shows "a div b < c"
proof (rule ccontr)
  assume "\<not> a div b < c"
  then have "c \<le> a div b" by simp
  then have le: "c * b \<le> (a div b) * b"
    using assms(1) by (simp only: mult_right_mono less_imp_le)
  have whole: "(a div b) * b + a mod b = a"
    by (rule div_mult_mod_eq)
  have "0 \<le> a mod b"
    using assms(1) by simp
  with le whole assms(2) show False
    by linarith
qed

lemma formatDuration_exact:
  assumes "0 \<le> ms" and "ms < 2 ^ 53"
  shows "formatDuration ms =
     (let totalSeconds = ms div 1000;
          hours = totalSeconds div 3600;
          minutes = js_rem totalSeconds 3600 div 60
      in if hours > 0 then show_int hours @ ''h '' @ show_int minutes @ ''m''
         else show_int minutes @ '' minutes'')"
proof -
  define T where "T = ms div 1000"
  define R where "R = js_rem T 3600"
  have T0: "0 \<le> T"
    using assms(1) by (simp add: T_def pos_imp_zdiv_nonneg_iff)
  have T44: "T < 2 ^ 44"
    unfolding T_def using assms(2) by (intro div_less_bound) simp_all
  have seconds: "floor_quotient ms 1000 = T"
    unfolding T_def using assms(1) T44 [unfolded T_def]
    by (intro floor_quotient_exact [where j = 44]) simp_all
  have "T div 3600 < 2 ^ 33"
    using T44 by (intro div_less_bound) simp_all
  then have hours: "floor_quotient T 3600 = T div 3600"
    using T0 by (intro floor_quotient_exact [where j = 33]) simp_all
  have R: "0 \<le> R" "R < 3600"
    using T0 by (simp_all add: R_def js_rem_def)
  have "R div 60 < 2 ^ 6"
    using R(2) by (intro div_less_bound) simp_all
  then have minutes: "floor_quotient R 60 = R div 60"
    using R(1) by (intro floor_quotient_exact [where j = 6]) simp_all
  show ?thesis
    unfolding formatDuration_def Let_def seconds T_def [symmetric] hours R_def [symmetric] minutes ..
qed

text \<open>
  C3 (amended). For a non-negative integer number of milliseconds below \<open>2 ^ 53\<close> the
  formatter returns \<open>{hours}h {minutes}m\<close> when the input is at least one hour and
  \<open>{minutes} minutes\<close> otherwise, where hours and minutes are floors: the whole hours
  contained in the input and the whole minutes contained in the rest, so the printed
  duration never exceeds the input and misses it by less than a minute. In particular
  3599999 ms prints as \<open>59 minutes\<close> and 3600000 ms as \<open>1h 0m\<close>.
\<close>

theorem formatDuration_floor:
  "(0 \<le> ms \<and> ms < 2 ^ 53 \<longrightarrow>
      (let h = ms div 3600000; m = (ms mod 3600000) div 60000
       in formatDuration ms =
            (if 3600000 \<le> ms then show_int h @ ''h '' @ show_int m @ ''m''
             else show_int m @ '' minutes'')
          \<and> 0 \<le> m \<and> m < 60
          \<and> h * 3600000 + m * 60000 \<le> ms \<and> ms < h * 3600000 + (m + 1) * 60000))
   \<and> formatDuration 3599999 = ''59 minutes''
   \<and> formatDuration 3600000 = ''1h 0m''"
proof (intro conjI impI)
  assume range: "0 \<le> ms \<and> ms < 2 ^ 53"
  then have nonneg: "0 \<le> ms" and safe: "ms < 2 ^ 53"
    by simp_all
  have hours: "0 < ms div 3600000 \<longleftrightarrow> 3600000 \<le> ms"
    using nonneg by (simp add: pos_imp_zdiv_pos_iff)
  have fmt: "formatDuration ms =
      (if 3600000 \<le> ms
       then show_int (ms div 3600000) @ ''h '' @ show_int ((ms mod 3600000) div 60000) @ ''m''
       else show_int ((ms mod 3600000) div 60000) @ '' minutes'')"
    unfolding formatDuration_exact [OF nonneg safe] Let_def formatDuration_hours
      formatDuration_minutes [OF nonneg] hours ..
  show "let h = ms div 3600000; m = (ms mod 3600000) div 60000
       in formatDuration ms =
            (if 3600000 \<le> ms then show_int h @ ''h '' @ show_int m @ ''m''
             else show_int m @ '' minutes'')
          \<and> 0 \<le> m \<and> m < 60
          \<and> h * 3600000 + m * 60000 \<le> ms \<and> ms < h * 3600000 + (m + 1) * 60000"
    unfolding Let_def
    using fmt whole_minutes_range [of ms] whole_minutes_bounds [of ms] by blast
next
  show "formatDuration 3599999 = ''59 minutes''"
    by (simp add: formatDuration_def floor_quotient_def binary_exponent_def nearest_even_def
          bit_len.simps js_rem_def show_int_def show_nat.simps digit_char_def Let_def)
next
  show "formatDuration 3600000 = ''1h 0m''"
    by (simp add: formatDuration_def floor_quotient_def binary_exponent_def nearest_even_def
          bit_len.simps js_rem_def show_int_def show_nat.simps digit_char_def Let_def)
qed

theorem formatDuration_floor_witness:
  "(0::int) \<le> 5025000 \<and> (5025000::int) < 2 ^ 53 \<and> formatDuration 5025000 = ''1h 23m''"
  using formatDuration_floor [of 5025000]
  by (simp add: show_int_def show_nat.simps digit_char_def)

text \<open>
  Beyond \<open>2 ^ 53\<close> the quotient of doubles rounds: 4611686018427419648 ms, a double, is
  1281023894007 hours, 36 minutes and 59.648 seconds, and prints with 37 minutes.
\<close>

theorem formatDuration_rounds_up_beyond_safe_integers:
  "formatDuration 4611686018427419648 = ''1281023894007h 37m''
   \<and> show_int (4611686018427419648 div 3600000) @ ''h ''
       @ show_int ((4611686018427419648 mod 3600000) div 60000) @ ''m'' = ''1281023894007h 36m''"
  by (simp add: formatDuration_def floor_quotient_def binary_exponent_def nearest_even_def
        bit_len.simps js_rem_def show_int_def show_nat.simps digit_char_def Let_def)

subsection \<open>Properties of authenticateWorker\<close>

lemma filter_key_at_most_one:
  assumes "distinct (map key rows)"
  shows "filter (\<lambda>r. key r = k \<and> P r) rows = [] \<or> (\<exists>r. filter (\<lambda>r. key r = k \<and> P r) rows = [r])"
  using assms
proof (induction rows)
  case Nil
  then show ?case by simp
next
  case (Cons a rows)
  show ?case
  proof (cases "key a = k")
    case True
    with Cons.prems have "k \<notin> key ` set rows" by simp
    then have "\<forall>r \<in> set rows. key r \<noteq> k" by blast
    then have "filter (\<lambda>r. key r = k \<and> P r) rows = []"
      by (simp add: filter_empty_conv)
    then show ?thesis by simp
  next
    case False
    with Cons show ?thesis by simp
  qed
qed

lemma find_SomeD:
  assumes "find P xs = Some x"
  shows "x \<in> set xs \<and> P x"
  using assms by (induction xs) (auto split: if_splits)

lemma single_ok_iff:
  "(\<exists>r. single None rows = Inr r) \<longleftrightarrow> (\<exists>r. rows = [r])"
  by (auto simp: single_def split: list.splits)

lemma authenticateWorker_admin:
  "authenticateWorker DEMO_MODE st fault ''000000'' =
     Success \<lparr>auth_worker = \<lparr>w_id = ''admin'', full_name = ''Administrator'', role = ''admin''\<rparr>,
              isAdmin = True\<rparr>"
  by (simp add: authenticateWorker_def)

lemma authenticateWorker_failure:
  assumes "\<not> succeeded (authenticateWorker DEMO_MODE st fault p)"
  shows "authenticateWorker DEMO_MODE st fault p = Failure ''Invalid PIN. Please try again.''"
  using assms by (auto simp: authenticateWorker_def split: if_splits option.splits sum.splits)

lemma authenticateWorker_demo:
  assumes "p \<noteq> ''000000''"
  shows "succeeded (authenticateWorker True st fault p) \<longleftrightarrow> (\<exists>w \<in> set (DEMO_WORKERS st). pin w = p)"
  using assms by (auto simp: authenticateWorker_def find_None_iff split: option.splits dest: find_SomeD)

lemma authenticateWorker_live:
  assumes "p \<noteq> ''000000''" and "distinct (map pin (workers (db st)))"
  shows "succeeded (authenticateWorker False st None p)
           \<longleftrightarrow> (\<exists>w \<in> set (workers (db st)). pin w = p \<and> is_active w = Some True)"
proof -
  let ?rows = "filter (\<lambda>w. pin w = p \<and> is_active w = Some True) (workers (db st))"
  have shape: "?rows = [] \<or> (\<exists>r. ?rows = [r])"
    using filter_key_at_most_one [OF assms(2)] .
  have "succeeded (authenticateWorker False st None p) \<longleftrightarrow> ?rows \<noteq> []"
    using shape assms(1) by (auto simp: authenticateWorker_def single_def split: sum.splits list.splits)
  also have "\<dots> \<longleftrightarrow> (\<exists>w \<in> set (workers (db st)). pin w = p \<and> is_active w = Some True)"
    by (auto simp: filter_empty_conv)
  finally show ?thesis .
qed

lemma authenticateWorker_success:
  assumes "p \<noteq> ''000000''" and "authenticateWorker DEMO_MODE st fault p = Success a"
  shows "\<not> isAdmin a \<and> (\<exists>w \<in> set (active_workers DEMO_MODE st). pin w = p
            \<and> auth_worker a = \<lparr>w_id = w_id w, full_name = full_name w, role = role w\<rparr>)"
proof (cases DEMO_MODE)
  case True
  with assms obtain w where "find (\<lambda>w. pin w = p) (DEMO_WORKERS st) = Some w"
    and a: "a = \<lparr>auth_worker = \<lparr>w_id = w_id w, full_name = full_name w, role = role w\<rparr>, isAdmin = False\<rparr>"
    by (auto simp: authenticateWorker_def split: option.splits)
  then have "w \<in> set (DEMO_WORKERS st)" "pin w = p"
    by (auto dest: find_SomeD)
  with a True show ?thesis by (auto simp: active_workers_def)
next
  case False
  let ?rows = "filter (\<lambda>w. pin w = p \<and> is_active w = Some True) (workers (db st))"
  from assms False obtain w where s: "single fault ?rows = Inr w"
    and a: "a = \<lparr>auth_worker = \<lparr>w_id = w_id w, full_name = full_name w, role = role w\<rparr>, isAdmin = False\<rparr>"
    by (auto simp: authenticateWorker_def split: sum.splits)
  from s have "?rows = [w]"
    by (auto simp: single_def split: option.splits list.splits)
  then have "w \<in> set ?rows" by simp
  then have "w \<in> set (active_workers False st)" "pin w = p"
    by (auto simp: active_workers_def)
  with a False show ?thesis by auto
qed

lemma authenticateWorker_unanswered:
  assumes "p \<noteq> ''000000''"
  shows "\<not> succeeded (authenticateWorker False st (Some err) p)"
  using assms by (simp add: authenticateWorker_def single_def)

lemma authenticateWorker_single:
  assumes "p \<noteq> ''000000''"
  shows "succeeded (authenticateWorker False st fault p)
           \<longleftrightarrow> fault = None
               \<and> length (filter (\<lambda>w. pin w = p \<and> is_active w = Some True) (workers (db st))) = 1"
proof (cases fault)
  case None
  have one: "length rows = 1 \<longleftrightarrow> (\<exists>r. rows = [r])" for rows :: "worker list"
    by (cases rows) auto
  show ?thesis
    using assms None
    by (auto simp: authenticateWorker_def single_def one split: sum.splits list.splits)
next
  case (Some err)
  with assms show ?thesis
    using authenticateWorker_unanswered [of p st err] by simp
qed

text \<open>
  C4 (amended). The PIN \<open>000000\<close> always authenticates as the administrator, whatever the
  mode, the tables and the availability of the store, so without consulting them. Any
  other PIN succeeds in demo mode exactly when a demo worker has that exact PIN, and
  against the persisted store exactly when the lookup is answered with exactly one
  active worker of that PIN, which is, the PIN column being unique, when the store
  answers and an active worker with that exact PIN exists. The worker handed out is
  that worker and is not an administrator. Every refusal, a lookup that fails
  included, is the invalid-PIN error.
\<close>

theorem authenticateWorker_admin_and_lookup:
  "authenticateWorker DEMO_MODE st fault ''000000'' =
     Success \<lparr>auth_worker = \<lparr>w_id = ''admin'', full_name = ''Administrator'', role = ''admin''\<rparr>,
              isAdmin = True\<rparr>
   \<and> (p \<noteq> ''000000'' \<and> (\<not> DEMO_MODE \<longrightarrow> distinct (map pin (workers (db st))))
        \<longrightarrow> (succeeded (authenticateWorker DEMO_MODE st fault p)
               \<longleftrightarrow> (DEMO_MODE \<or> fault = None)
                   \<and> (\<exists>w \<in> set (active_workers DEMO_MODE st). pin w = p)))
   \<and> (p \<noteq> ''000000'' \<and> \<not> DEMO_MODE
        \<longrightarrow> (succeeded (authenticateWorker DEMO_MODE st fault p)
               \<longleftrightarrow> fault = None
                   \<and> length (filter (\<lambda>w. pin w = p) (active_workers DEMO_MODE st)) = 1))
   \<and> (p \<noteq> ''000000'' \<longrightarrow>
        (\<forall>a. authenticateWorker DEMO_MODE st fault p = Success a \<longrightarrow>
           \<not> isAdmin a \<and> (\<exists>w \<in> set (active_workers DEMO_MODE st). pin w = p
              \<and> auth_worker a = \<lparr>w_id = w_id w, full_name = full_name w, role = role w\<rparr>))
        \<and> (\<not> succeeded (authenticateWorker DEMO_MODE st fault p) \<longrightarrow>
             authenticateWorker DEMO_MODE st fault p = Failure ''Invalid PIN. Please try again.''))"
proof -
  have admin: "authenticateWorker DEMO_MODE st fault ''000000'' =
     Success \<lparr>auth_worker = \<lparr>w_id = ''admin'', full_name = ''Administrator'', role = ''admin''\<rparr>,
              isAdmin = True\<rparr>"
    by (rule authenticateWorker_admin)
  have lookup: "succeeded (authenticateWorker DEMO_MODE st fault p)
          \<longleftrightarrow> (DEMO_MODE \<or> fault = None) \<and> (\<exists>w \<in> set (active_workers DEMO_MODE st). pin w = p)"
    if h: "p \<noteq> ''000000'' \<and> (\<not> DEMO_MODE \<longrightarrow> distinct (map pin (workers (db st))))"
  proof (cases DEMO_MODE)
    case True
    with h show ?thesis
      using authenticateWorker_demo [of p st fault] by (simp add: active_workers_def)
  next
    case False
    note store = this
    show ?thesis
    proof (cases fault)
      case None
      with h store show ?thesis
        using authenticateWorker_live [of p st] by (auto simp: active_workers_def)
    next
      case (Some err)
      with h store show ?thesis
        using authenticateWorker_unanswered [of p st err] by simp
    qed
  qed
  have exact: "succeeded (authenticateWorker DEMO_MODE st fault p)
          \<longleftrightarrow> fault = None \<and> length (filter (\<lambda>w. pin w = p) (active_workers DEMO_MODE st)) = 1"
    if h: "p \<noteq> ''000000'' \<and> \<not> DEMO_MODE"
  proof -
    have "filter (\<lambda>w. pin w = p) (active_workers False st)
            = filter (\<lambda>w. pin w = p \<and> is_active w = Some True) (workers (db st))"
      by (simp add: active_workers_def conj_commute)
    with h show ?thesis
      using authenticateWorker_single [of p st fault] by simp
  qed
  have found: "\<not> isAdmin a \<and> (\<exists>w \<in> set (active_workers DEMO_MODE st). pin w = p
              \<and> auth_worker a = \<lparr>w_id = w_id w, full_name = full_name w, role = role w\<rparr>)"
    if "p \<noteq> ''000000''" and "authenticateWorker DEMO_MODE st fault p = Success a" for a
    using that by (rule authenticateWorker_success)
  have refused: "authenticateWorker DEMO_MODE st fault p = Failure ''Invalid PIN. Please try again.''"
    if "\<not> succeeded (authenticateWorker DEMO_MODE st fault p)"
    using that by (rule authenticateWorker_failure)
  show ?thesis
    using admin lookup exact found refused by blast
qed

theorem authenticateWorker_admin_and_lookup_witness:
  "succeeded (authenticateWorker False two_workers_state None ''111111'')
   \<and> authenticateWorker False two_workers_state None ''222222'' = Failure ''Invalid PIN. Please try again.''"
  using authenticateWorker_admin_and_lookup [of False two_workers_state None "''111111''"]
        authenticateWorker_admin_and_lookup [of False two_workers_state None "''222222''"]
  by (simp add: two_workers_state_def active_workers_def)

text \<open>
  A lookup that fails refuses the PIN of an active worker: the store holds one active
  worker, with PIN \<open>111111\<close>.
\<close>

theorem authenticateWorker_refuses_when_lookup_fails:
  "map pin (active_workers False two_workers_state) = [''111111'']
   \<and> authenticateWorker False two_workers_state (Some ''08006'') ''111111''
       = Failure ''Invalid PIN. Please try again.''"
  by (simp add: authenticateWorker_def single_def active_workers_def two_workers_state_def)

subsection \<open>Properties of createWorker\<close>

lemma dropWhile_all_iff: "(\<forall>x \<in> set (dropWhile P xs). P x) \<longleftrightarrow> (\<forall>x \<in> set xs. P x)"
  by (induction xs) auto

lemma trim_empty_iff: "trim s = [] \<longleftrightarrow> list_all is_space s"
  by (simp add: trim_def dropWhile_eq_Nil_conv dropWhile_all_iff list_all_iff)

lemma createWorker_bad_pin:
  assumes "\<not> six_digits p"
  shows "createWorker DEMO_MODE st fault now new_id p fullName role_arg
           = (Failure ''PIN must be exactly 6 digits.'', st)"
  using assms by (simp add: createWorker_def)

lemma createWorker_blank_name:
  assumes "six_digits p" and "list_all is_space fullName"
  shows "createWorker DEMO_MODE st fault now new_id p fullName role_arg
           = (Failure ''Name is required.'', st)"
  using assms by (simp add: createWorker_def trim_empty_iff)

lemma createWorker_duplicate:
  assumes "six_digits p" and "\<not> list_all is_space fullName"
    and "pin_taken DEMO_MODE st p" and "\<not> DEMO_MODE \<longrightarrow> fault = None"
  shows "createWorker DEMO_MODE st fault now new_id p fullName role_arg
           = (Failure ''This PIN is already in use.'', st)"
  using assms
  by (cases DEMO_MODE) (auto simp: createWorker_def trim_empty_iff pin_taken_def insert_worker_def Let_def)

lemma createWorker_store_failure:
  assumes "six_digits p" and "\<not> list_all is_space fullName" and "err \<noteq> ''23505''"
  shows "createWorker False st (Some err) now new_id p fullName role_arg
           = (Failure ''Failed to create worker. Please try again.'', st)"
  using assms
  by (simp add: createWorker_def trim_empty_iff insert_worker_def Let_def)

lemma createWorker_fresh:
  assumes "six_digits p" and "\<not> list_all is_space fullName"
    and "\<not> pin_taken DEMO_MODE st p" and "\<not> DEMO_MODE \<longrightarrow> fault = None"
  shows "\<exists>w st'. createWorker DEMO_MODE st fault now new_id p fullName role_arg = (Success w, st')
           \<and> pin w = p \<and> full_name w = trim fullName \<and> pin_taken DEMO_MODE st' p"
  using assms
  by (cases DEMO_MODE) (auto simp: createWorker_def trim_empty_iff pin_taken_def insert_worker_def Let_def)

text \<open>
  C5. A PIN that is not exactly six digits and a name that is empty or all white space
  are refused before any store interaction: whatever the mode, the tables and the
  availability of the store, with the state unchanged. A PIN that duplicates an existing
  worker's PIN is refused with the message \<open>This PIN is already in use.\<close>, which differs
  from the message of a generic store failure. Creating two workers with the same fresh
  PIN has the first succeed and the second fail with the PIN-in-use error.
\<close>

theorem createWorker_validation_and_uniqueness:
  "(\<not> six_digits p \<longrightarrow>
      createWorker DEMO_MODE st fault now new_id p fullName role_arg
        = (Failure ''PIN must be exactly 6 digits.'', st))
   \<and> (six_digits p \<and> list_all is_space fullName \<longrightarrow>
      createWorker DEMO_MODE st fault now new_id p fullName role_arg
        = (Failure ''Name is required.'', st))
   \<and> (six_digits p \<and> \<not> list_all is_space fullName \<and> pin_taken DEMO_MODE st p
        \<and> (\<not> DEMO_MODE \<longrightarrow> fault = None) \<longrightarrow>
      createWorker DEMO_MODE st fault now new_id p fullName role_arg
        = (Failure ''This PIN is already in use.'', st))
   \<and> (six_digits p \<and> \<not> list_all is_space fullName \<and> err \<noteq> ''23505'' \<longrightarrow>
      createWorker False st (Some err) now new_id p fullName role_arg
        = (Failure ''Failed to create worker. Please try again.'', st))
   \<and> ''This PIN is already in use.'' \<noteq> ''Failed to create worker. Please try again.''
   \<and> (six_digits p \<and> \<not> list_all is_space fullName \<and> \<not> list_all is_space fullName2
        \<and> \<not> pin_taken DEMO_MODE st p \<and> (\<not> DEMO_MODE \<longrightarrow> fault = None) \<longrightarrow>
      (\<exists>w st'. createWorker DEMO_MODE st fault now new_id p fullName role_arg = (Success w, st')
          \<and> pin w = p
          \<and> createWorker DEMO_MODE st' fault now2 new_id2 p fullName2 role_arg2
               = (Failure ''This PIN is already in use.'', st')))"
proof -
  have twice: "\<exists>w st'. createWorker DEMO_MODE st fault now new_id p fullName role_arg = (Success w, st')
          \<and> pin w = p
          \<and> createWorker DEMO_MODE st' fault now2 new_id2 p fullName2 role_arg2
               = (Failure ''This PIN is already in use.'', st')"
    if h: "six_digits p \<and> \<not> list_all is_space fullName \<and> \<not> list_all is_space fullName2
        \<and> \<not> pin_taken DEMO_MODE st p \<and> (\<not> DEMO_MODE \<longrightarrow> fault = None)"
  proof -
    from h obtain w st' where first: "createWorker DEMO_MODE st fault now new_id p fullName role_arg = (Success w, st')"
      and w: "pin w = p" and taken: "pin_taken DEMO_MODE st' p"
      using createWorker_fresh [of p fullName DEMO_MODE st fault now new_id role_arg] by blast
    have "createWorker DEMO_MODE st' fault now2 new_id2 p fullName2 role_arg2
               = (Failure ''This PIN is already in use.'', st')"
      using h taken by (intro createWorker_duplicate) simp_all
    with first w show ?thesis by blast
  qed
  have distinct_errors: "''This PIN is already in use.'' \<noteq> ''Failed to create worker. Please try again.''"
    by simp
  show ?thesis
    using createWorker_bad_pin [of p DEMO_MODE st fault now new_id fullName role_arg]
      createWorker_blank_name [of p fullName DEMO_MODE st fault now new_id role_arg]
      createWorker_duplicate [of p fullName DEMO_MODE st fault now new_id role_arg]
      createWorker_store_failure [of p fullName err st now new_id role_arg]
      twice distinct_errors
    by blast
qed

theorem createWorker_validation_and_uniqueness_witness:
  "\<exists>w st'. createWorker False initial_state None 1700000000000 ''u9'' ''654321'' '' Ann Lee '' None = (Success w, st')
        \<and> pin w = ''654321''
        \<and> createWorker False st' None 1700000000001 ''u10'' ''654321'' ''Bo Chen'' (Some ''supervisor'')
             = (Failure ''This PIN is already in use.'', st')"
proof -
  have pin_ok: "six_digits ''654321''"
    by (simp add: six_digits_def is_digit_def)
  have names: "\<not> list_all is_space '' Ann Lee ''" "\<not> list_all is_space ''Bo Chen''"
    by (simp_all add: is_space_def)
  have fresh: "\<not> pin_taken False initial_state ''654321''"
    by (simp add: pin_taken_def initial_state_def)
  show ?thesis
    using createWorker_validation_and_uniqueness
          [of "''654321''" False initial_state None 1700000000000 "''u9''" "'' Ann Lee ''" None "''08006''"
              "''Bo Chen''" 1700000000001 "''u10''" "Some ''supervisor''"]
      pin_ok names fresh
    by blast
qed

subsection \<open>Properties of verifyCode\<close>

lemma matching_codes_set: "set (matching_codes d w c) = set (code_on_record d w c)"
  by (simp add: matching_codes_def code_on_record_def)

lemma matching_codes_Nil: "matching_codes d w c = [] \<longleftrightarrow> code_on_record d w c = []"
proof -
  have "length (matching_codes d w c) = length (code_on_record d w c)"
    by (simp add: matching_codes_def code_on_record_def)
  then show ?thesis
    by (metis length_0_conv)
qed

lemma verifyCode_demo_not_found:
  assumes "demoVerificationCodes st w = None"
  shows "verifyCode True st fault uf now w c = (Failure ''No code found. Please request a new one.'', st)"
  using assms by (simp add: verifyCode_def)

lemma verifyCode_demo_mismatch:
  assumes "demoVerificationCodes st w = Some stored" and "code stored \<noteq> c"
  shows "verifyCode True st fault uf now w c = (Failure ''Invalid code. Please try again.'', st)"
  using assms by (simp add: verifyCode_def)

lemma verifyCode_demo_expired:
  assumes "demoVerificationCodes st w = Some stored" and "code stored = c" and "expiresAt stored < now"
  shows "verifyCode True st fault uf now w c = (Failure ''Code expired. Please request a new one.'', st)"
  using assms by (simp add: verifyCode_def)

lemma verifyCode_demo_consumes:
  assumes "demoVerificationCodes st w = Some stored" and "code stored = c" and "now \<le> expiresAt stored"
  shows "\<exists>st'. verifyCode True st fault uf now w c = (Success (), st')
           \<and> (\<forall>fault' uf' now'. fst (verifyCode True st' fault' uf' now' w c)
                 = Failure ''No code found. Please request a new one.'')"
  using assms by (simp add: verifyCode_def)

lemma verifyCode_live_no_match:
  assumes "code_on_record (db st) w c = []"
  shows "verifyCode False st fault uf now w c = (Failure ''Invalid code. Please try again.'', st)"
proof -
  have "matching_codes (db st) w c = []"
    using assms by (simp add: matching_codes_Nil)
  then show ?thesis
    by (simp add: verifyCode_def single_def split: option.splits)
qed

lemma verifyCode_live_fault:
  "verifyCode False st (Some err) uf now w c = (Failure ''Invalid code. Please try again.'', st)"
  by (simp add: verifyCode_def single_def)

lemma verifyCode_live_expired:
  assumes "code_on_record (db st) w c \<noteq> []"
    and "\<forall>r \<in> set (code_on_record (db st) w c). vc_expires_at r < now"
  shows "verifyCode False st None uf now w c = (Failure ''Code expired. Please request a new one.'', st)"
proof -
  obtain r rs where m: "matching_codes (db st) w c = r # rs"
    using assms(1) by (cases "matching_codes (db st) w c") (simp_all add: matching_codes_Nil)
  then have "r \<in> set (matching_codes (db st) w c)"
    by simp
  then have "r \<in> set (code_on_record (db st) w c)"
    using matching_codes_set [of "db st" w c] by blast
  with assms(2) have "vc_expires_at r < now" by blast
  with m show ?thesis
    by (simp add: verifyCode_def single_def)
qed

lemma mark_used_consumes:
  assumes "code_on_record d w c = [r]"
  shows "code_on_record (mark_used now (vc_id r) d) w c = []"
proof -
  have only: "x = r" if "x \<in> set (verification_codes d)" "vc_worker_id x = w" "vc_code x = c" "vc_used_at x = None" for x
  proof -
    from that have "x \<in> set (code_on_record d w c)"
      by (simp add: code_on_record_def)
    with assms show ?thesis by simp
  qed
  show ?thesis
    by (auto simp: code_on_record_def mark_used_def filter_empty_conv dest: only)
qed

lemma verifyCode_live_consumes:
  assumes "code_on_record (db st) w c = [r]" and "now \<le> vc_expires_at r"
  shows "\<exists>st'. verifyCode False st None None now w c = (Success (), st')
           \<and> (\<forall>fault' uf' now'. fst (verifyCode False st' fault' uf' now' w c)
                 = Failure ''Invalid code. Please try again.'')"
proof -
  have m: "matching_codes (db st) w c = [r]"
    using assms(1) by (simp add: matching_codes_def code_on_record_def)
  let ?st' = "st\<lparr>db := mark_used now (vc_id r) (db st)\<rparr>"
  have first: "verifyCode False st None None now w c = (Success (), ?st')"
    using m assms(2) by (simp add: verifyCode_def single_def)
  have "code_on_record (db ?st') w c = []"
    using mark_used_consumes [OF assms(1)] by simp
  then have "fst (verifyCode False ?st' fault' uf' now' w c) = Failure ''Invalid code. Please try again.''"
    for fault' uf' now'
    by (simp add: verifyCode_live_no_match)
  with first show ?thesis by blast
qed

lemma sendVerificationCode_demo:
  "\<exists>st'. sendVerificationCode True st fault t0 rnd new_id w email = (Success ''Code sent!'', st')
     \<and> demoVerificationCodes st' w = Some \<lparr>code = generate_code rnd, expiresAt = t0 + 600000\<rparr>"
  by (simp add: sendVerificationCode_def Let_def)

lemma sendVerificationCode_live:
  assumes "code_on_record (db st) w (generate_code rnd) = []"
  shows "\<exists>st'. sendVerificationCode False st None t0 rnd new_id w email = (Success ''Code sent!'', st')
     \<and> code_on_record (db st') w (generate_code rnd)
          = [\<lparr>vc_id = new_id, vc_worker_id = w, vc_code = generate_code rnd,
               vc_expires_at = t0 + 600000, vc_used_at = None, vc_created_at = t0\<rparr>]"
  using assms by (simp add: sendVerificationCode_def Let_def code_on_record_def)


lemma verifyCode_live_update_refused:
  assumes "code_on_record (db st) w c = [r]" and "now \<le> vc_expires_at r"
  shows "verifyCode False st None (Some err) now w c = (Success (), st)"
proof -
  have "matching_codes (db st) w c = [r]"
    using assms(1) by (simp add: matching_codes_def code_on_record_def)
  then show ?thesis
    using assms(2) by (simp add: verifyCode_def single_def)
qed

text \<open>
  C6 (amended). In demo mode verification fails with three mutually distinct errors: no
  code on record for the worker, a code on record that differs from the submitted one,
  and a matching code whose expiry (ten minutes after sending) has passed; a successful
  verification removes the entry, so that submitting the same code again fails.
  Against the persisted store a worker without an unused row carrying the submitted
  code, be it that no code is on record or that the code on record differs, is answered
  with the one error \<open>Invalid code\<close>, as is a failed query; when all the unused rows
  carrying the code are past their expiry the answer is the distinct error
  \<open>Code expired\<close>. A successful verification against the store asks the store to mark
  the row used and does not inspect the outcome: when the worker has exactly one unused
  row with the code and the store performs the update, the code is consumed and
  submitting it again fails at any later time; when the store refuses the update, the
  verification succeeds all the same and the row stays unused.
\<close>

theorem verifyCode_errors_and_consumption:
  "(demoVerificationCodes st w = None \<longrightarrow>
      verifyCode True st fault uf now w c = (Failure ''No code found. Please request a new one.'', st))
   \<and> (\<forall>stored. demoVerificationCodes st w = Some stored \<and> code stored \<noteq> c \<longrightarrow>
      verifyCode True st fault uf now w c = (Failure ''Invalid code. Please try again.'', st))
   \<and> (\<forall>stored. demoVerificationCodes st w = Some stored \<and> code stored = c \<and> expiresAt stored < now \<longrightarrow>
      verifyCode True st fault uf now w c = (Failure ''Code expired. Please request a new one.'', st))
   \<and> (\<forall>stored. demoVerificationCodes st w = Some stored \<and> code stored = c \<and> now \<le> expiresAt stored \<longrightarrow>
      (\<exists>st'. verifyCode True st fault uf now w c = (Success (), st')
         \<and> (\<forall>fault' uf' now'. fst (verifyCode True st' fault' uf' now' w c)
               = Failure ''No code found. Please request a new one.'')))
   \<and> distinct [''No code found. Please request a new one.'', ''Invalid code. Please try again.'',
                ''Code expired. Please request a new one.'']
   \<and> (code_on_record (db st) w c = [] \<or> fault \<noteq> None \<longrightarrow>
      verifyCode False st fault uf now w c = (Failure ''Invalid code. Please try again.'', st))
   \<and> (code_on_record (db st) w c \<noteq> [] \<and> (\<forall>r \<in> set (code_on_record (db st) w c). vc_expires_at r < now) \<longrightarrow>
      verifyCode False st None uf now w c = (Failure ''Code expired. Please request a new one.'', st))
   \<and> (\<forall>r. code_on_record (db st) w c = [r] \<and> now \<le> vc_expires_at r \<longrightarrow>
      (\<exists>st'. verifyCode False st None None now w c = (Success (), st')
         \<and> (\<forall>fault' uf' now'. fst (verifyCode False st' fault' uf' now' w c)
               = Failure ''Invalid code. Please try again.'')))
   \<and> (\<exists>st'. sendVerificationCode True st fault t0 rnd new_id w email = (Success ''Code sent!'', st')
         \<and> demoVerificationCodes st' w = Some \<lparr>code = generate_code rnd, expiresAt = t0 + 600000\<rparr>)
   \<and> (code_on_record (db st) w (generate_code rnd) = [] \<longrightarrow>
        (\<exists>st'. sendVerificationCode False st None t0 rnd new_id w email = (Success ''Code sent!'', st')
           \<and> code_on_record (db st') w (generate_code rnd)
                = [\<lparr>vc_id = new_id, vc_worker_id = w, vc_code = generate_code rnd,
                     vc_expires_at = t0 + 600000, vc_used_at = None, vc_created_at = t0\<rparr>]))
   \<and> (\<forall>r err. code_on_record (db st) w c = [r] \<and> now \<le> vc_expires_at r \<longrightarrow>
        verifyCode False st None (Some err) now w c = (Success (), st))"
proof -
  have messages: "distinct [''No code found. Please request a new one.'', ''Invalid code. Please try again.'',
                ''Code expired. Please request a new one.'']"
    by simp
  have unanswered: "verifyCode False st fault uf now w c = (Failure ''Invalid code. Please try again.'', st)"
    if "code_on_record (db st) w c = [] \<or> fault \<noteq> None"
    using that verifyCode_live_no_match [of st w c fault uf now] verifyCode_live_fault [of st _ uf now w c]
    by (cases fault) auto
  show ?thesis
    using verifyCode_demo_not_found [of st w fault uf now c]
      verifyCode_demo_mismatch [of st w _ c fault uf now]
      verifyCode_demo_expired [of st w _ c now fault uf]
      verifyCode_demo_consumes [of st w _ c now fault uf]
      messages unanswered
      verifyCode_live_expired [of st w c now uf]
      verifyCode_live_consumes [of st w c _ now]
      sendVerificationCode_demo [of st fault t0 rnd new_id w email]
      sendVerificationCode_live [of st w rnd t0 new_id email]
      verifyCode_live_update_refused [of st w c _ now]
    by blast
qed


theorem verifyCode_errors_and_consumption_witness:
  "\<exists>st'. verifyCode False one_code_state None None 1000 ''u1'' ''654321'' = (Success (), st')
      \<and> fst (verifyCode False st' None None 2000 ''u1'' ''654321'')
            = Failure ''Invalid code. Please try again.''"
proof -
  have on_record: "code_on_record (db one_code_state) ''u1'' ''654321'' = [code_row]"
    by (simp add: code_on_record_def one_code_state_def code_row_def)
  have fresh: "1000 \<le> vc_expires_at code_row"
    by (simp add: code_row_def)
  have consumed: "\<forall>r. code_on_record (db one_code_state) ''u1'' ''654321'' = [r] \<and> 1000 \<le> vc_expires_at r \<longrightarrow>
      (\<exists>st'. verifyCode False one_code_state None None 1000 ''u1'' ''654321'' = (Success (), st')
         \<and> (\<forall>fault' uf' now'. fst (verifyCode False st' fault' uf' now' ''u1'' ''654321'')
               = Failure ''Invalid code. Please try again.''))"
    by (rule verifyCode_errors_and_consumption [of one_code_state "''u1''" _ _ 1000 "''654321''",
          THEN conjunct2, THEN conjunct2, THEN conjunct2, THEN conjunct2, THEN conjunct2,
          THEN conjunct2, THEN conjunct2, THEN conjunct1])
  from consumed on_record fresh obtain st' where
    "verifyCode False one_code_state None None 1000 ''u1'' ''654321'' = (Success (), st')"
    "\<forall>fault' uf' now'. fst (verifyCode False st' fault' uf' now' ''u1'' ''654321'')
               = Failure ''Invalid code. Please try again.''"
    by blast
  then show ?thesis
    by blast
qed

theorem verifyCode_not_found_and_mismatch_same_error:
  "code_on_record (db initial_state) ''u1'' ''123456'' = []
   \<and> verification_codes (db initial_state) = []
   \<and> verifyCode False initial_state None None 1000 ''u1'' ''123456''
       = (Failure ''Invalid code. Please try again.'', initial_state)
   \<and> verification_codes (db one_code_state) = [code_row]
   \<and> vc_worker_id code_row = ''u1'' \<and> vc_code code_row \<noteq> ''123456''
   \<and> verifyCode False one_code_state None None 1000 ''u1'' ''123456''
       = (Failure ''Invalid code. Please try again.'', one_code_state)"
  by (simp add: verifyCode_def matching_codes_def single_def initial_state_def one_code_state_def code_row_def
        code_on_record_def)

text \<open>
  The update refused: the verification succeeds, the row stays unused, and the same
  code verifies once more.
\<close>

lemma verifyCode_replay_when_update_refused:
  "verifyCode False one_code_state None (Some ''42501'') 1000 ''u1'' ''654321''
     = (Success (), one_code_state)"
  by (simp add: verifyCode_def matching_codes_def single_def one_code_state_def code_row_def)

subsection \<open>Properties of getPunchHistory\<close>

lemma first_dates_snoc:
  "first_dates (rows @ [p]) =
     (if punch_date p \<in> set (first_dates rows) then first_dates rows
      else first_dates rows @ [punch_date p])"
  by (simp add: first_dates_def)

lemma first_dates_set: "set (first_dates rows) = punch_date ` set rows"
  by (simp add: first_dates_def)

lemma first_dates_distinct: "distinct (first_dates rows)"
  by (simp add: first_dates_def)

lemma ins_of_snoc:
  "ins_of (rows @ [p]) d =
     ins_of rows d @ (if punch_date p = d \<and> punch_type p = IN then [punch_timestamp p] else [])"
  by (simp add: ins_of_def)

lemma outs_of_snoc:
  "outs_of (rows @ [p]) d =
     outs_of rows d @ (if punch_date p = d \<and> punch_type p \<noteq> IN then [punch_timestamp p] else [])"
  by (simp add: outs_of_def)

lemma ins_of_absent: "d \<notin> punch_date ` set rows \<Longrightarrow> ins_of rows d = []"
  by (auto simp: ins_of_def filter_empty_conv)

lemma outs_of_absent: "d \<notin> punch_date ` set rows \<Longrightarrow> outs_of rows d = []"
  by (auto simp: outs_of_def filter_empty_conv)

lemma map_of_grouped:
  "map_of (map (\<lambda>d. (d, f d)) ks) d = None \<longleftrightarrow> d \<notin> set ks"
  by (induction ks) auto

lemma group_punches_eq:
  "group_punches rows = map (\<lambda>d. (d, ins_of rows d, outs_of rows d)) (first_dates rows)"
proof (induction rows rule: rev_induct)
  case Nil
  then show ?case
    by (simp add: group_punches_def first_dates_def)
next
  case (snoc p rows)
  let ?d = "punch_date p"
  let ?m = "map (\<lambda>d. (d, ins_of rows d, outs_of rows d)) (first_dates rows)"
  have step: "group_punches (rows @ [p]) = punchMap_add ?m p"
    using snoc.IH by (simp add: group_punches_def)
  have m1: "(if map_of ?m ?d = None then ?m @ [(?d, [], [])] else ?m)
              = map (\<lambda>d. (d, ins_of rows d, outs_of rows d)) (first_dates (rows @ [p]))"
    using ins_of_absent [of ?d rows] outs_of_absent [of ?d rows]
    by (simp add: map_of_grouped first_dates_snoc first_dates_set)
  have "punchMap_add ?m p =
          map (\<lambda>d. (d, ins_of (rows @ [p]) d, outs_of (rows @ [p]) d)) (first_dates (rows @ [p]))"
    unfolding punchMap_add_def Let_def punch_date_def [symmetric] m1
    by (auto simp: ins_of_snoc outs_of_snoc)
  with step show ?case by simp
qed

text \<open>The sort permutes its input and orders it by descending date.\<close>

lemma mset_insert_by: "mset (insert_by cmp x ys) = add_mset x (mset ys)"
  by (induction ys) auto

lemma mset_sort_by: "mset (sort_by cmp xs) = mset xs"
  by (induction xs) (auto simp: sort_by_def mset_insert_by)

lemma set_insert_by: "set (insert_by cmp x ys) = insert x (set ys)"
  by (induction ys) auto

lemma set_sort_by: "set (sort_by cmp xs) = set xs"
  using mset_sort_by [of cmp xs] by (metis set_mset_mset)

lemma date_desc_iff: "localeCompare (date y) (date x) \<le> 0 \<longleftrightarrow> date y \<le> date x"
  by (auto simp: localeCompare_def)

lemma sorted_insert_by_date:
  assumes "sorted_wrt (\<lambda>a b. date b \<le> date a) ys"
  shows "sorted_wrt (\<lambda>a b. date b \<le> date a) (insert_by (\<lambda>a b. localeCompare (date b) (date a)) x ys)"
  using assms
proof (induction ys)
  case Nil
  then show ?case by simp
next
  case (Cons y ys)
  show ?case
  proof (cases "date y \<le> date x")
    case True
    with Cons.prems show ?thesis
      by (auto simp: date_desc_iff)
  next
    case False
    then have "date x \<le> date y" by simp
    with False Cons show ?thesis
      by (auto simp: date_desc_iff set_insert_by)
  qed
qed

lemma sorted_sort_by_date:
  "sorted_wrt (\<lambda>a b. date b \<le> date a) (sort_by (\<lambda>a b. localeCompare (date b) (date a)) xs)"
  by (induction xs) (simp_all add: sort_by_def sorted_insert_by_date)

lemma sorted_strict_desc:
  assumes "sorted_wrt (\<lambda>a b. date b \<le> date a) xs" and "distinct (map date xs)"
  shows "sorted_wrt (\<lambda>a b. date b < date a) xs"
  using assms by (induction xs) (auto simp: less_le image_iff)


text \<open>One pair of the history.\<close>

lemma Date_parse_nonempty: "Date_parse tz s \<noteq> None \<Longrightarrow> s \<noteq> []"
  by (auto simp: Date_parse_def read_date_def read_digits_def)

lemma or_null_first:
  assumes "\<forall>s \<in> set xs. s \<noteq> []"
  shows "or_null (first_elem xs) = first_elem xs"
  using assms by (cases xs) (simp_all add: or_null_def first_elem_def)

lemma or_null_last:
  assumes "\<forall>s \<in> set xs. s \<noteq> []"
  shows "or_null (last_elem xs) = last_elem xs"
  using assms by (simp add: or_null_def last_elem_def)

lemma first_elem_mem: "first_elem xs = Some x \<Longrightarrow> x \<in> set xs"
  by (cases xs) (simp_all add: first_elem_def)

lemma last_elem_mem: "last_elem xs = Some x \<Longrightarrow> x \<in> set xs"
  by (auto simp: last_elem_def split: if_splits)

lemma ins_of_subset: "set (ins_of rows d) \<subseteq> punch_timestamp ` set rows"
  by (auto simp: ins_of_def)

lemma outs_of_subset: "set (outs_of rows d) \<subseteq> punch_timestamp ` set rows"
  by (auto simp: outs_of_def)

lemma pair_of_valid:
  fixes d :: string
  assumes valid: "\<forall>p \<in> set rows. Date_parse tz (punch_timestamp p) \<noteq> None"
  defines "pp \<equiv> pair_of tz (d, ins_of rows d, outs_of rows d)"
  shows "date pp = d"
    and "clockIn_ts pp = first_elem (ins_of rows d)"
    and "clockOut_ts pp = last_elem (outs_of rows d)"
    and "case (clockIn_ts pp, clockOut_ts pp) of
           (Some i, Some out) \<Rightarrow>
             (\<exists>ti to. Date_parse tz i = Some ti \<and> Date_parse tz out = Some to
                \<and> totalMs pp = Some (to - ti))
         | _ \<Rightarrow> totalMs pp = Some 0"
proof -
  have parse: "Date_parse tz s \<noteq> None" if "s \<in> punch_timestamp ` set rows" for s
    using that valid by auto
  have ne_in: "\<forall>s \<in> set (ins_of rows d). s \<noteq> []"
    using ins_of_subset [of rows d] parse Date_parse_nonempty by blast
  have ne_out: "\<forall>s \<in> set (outs_of rows d). s \<noteq> []"
    using outs_of_subset [of rows d] parse Date_parse_nonempty by blast
  show "date pp = d"
    by (simp add: pp_def pair_of_def Let_def)
  show ci: "clockIn_ts pp = first_elem (ins_of rows d)"
    by (simp add: pp_def pair_of_def Let_def or_null_first [OF ne_in])
  show co: "clockOut_ts pp = last_elem (outs_of rows d)"
    by (simp add: pp_def pair_of_def Let_def or_null_last [OF ne_out])
  have total: "totalMs pp = (case (clockIn_ts pp, clockOut_ts pp) of
                       (Some i, Some out) \<Rightarrow> num_sub (Date_parse tz out) (Date_parse tz i)
                     | _ \<Rightarrow> Some 0)"
    by (simp add: pp_def pair_of_def Let_def)
  show "case (clockIn_ts pp, clockOut_ts pp) of
           (Some i, Some out) \<Rightarrow>
             (\<exists>ti to. Date_parse tz i = Some ti \<and> Date_parse tz out = Some to
                \<and> totalMs pp = Some (to - ti))
         | _ \<Rightarrow> totalMs pp = Some 0"
  proof (cases "clockIn_ts pp")
    case None
    with total show ?thesis by simp
  next
    case (Some i)
    note in_some = this
    show ?thesis
    proof (cases "clockOut_ts pp")
      case None
      with total in_some show ?thesis by simp
    next
      case (Some out)
      have "i \<in> punch_timestamp ` set rows"
        using in_some ci first_elem_mem [of "ins_of rows d" i] ins_of_subset [of rows d] by auto
      then obtain ti where ti: "Date_parse tz i = Some ti"
        using parse by blast
      have "out \<in> punch_timestamp ` set rows"
        using Some co last_elem_mem [of "outs_of rows d" out] outs_of_subset [of rows d] by auto
      then obtain to where to: "Date_parse tz out = Some to"
        using parse by blast
      from total in_some Some ti to show ?thesis
        by (simp add: num_sub_def)
    qed
  qed
qed


text \<open>
  C1. For every worker and every fetched sequence of punches (with readable timestamps,
  as the store hands them out), the history has exactly one pair per calendar date that
  has a punch and none for other dates; the pair's clock-in is the first \<open>IN\<close> of the date
  or null, its clock-out is the last \<open>OUT\<close> of the date or null; its total is clock-out
  minus clock-in when both are present, whatever the sign of the difference, and 0
  otherwise; and the list is in strictly descending order of the dates.
\<close>

theorem getPunchHistory_pairs:
  "(\<forall>p \<in> set rows. Date_parse tz (punch_timestamp p) \<noteq> None) \<longrightarrow>
     (\<exists>history. getPunchHistory False tz now rnd (Inr rows) workerId days = Success history
        \<and> distinct (map date history)
        \<and> set (map date history) = punch_date ` set rows
        \<and> (\<forall>pp \<in> set history.
              clockIn_ts pp = first_elem (ins_of rows (date pp))
            \<and> clockOut_ts pp = last_elem (outs_of rows (date pp))
            \<and> (case (clockIn_ts pp, clockOut_ts pp) of
                 (Some i, Some out) \<Rightarrow>
                   (\<exists>ti to. Date_parse tz i = Some ti \<and> Date_parse tz out = Some to
                      \<and> totalMs pp = Some (to - ti))
               | _ \<Rightarrow> totalMs pp = Some 0))
        \<and> sorted_wrt (\<lambda>a b. date b < date a) history)"
proof
  assume valid: "\<forall>p \<in> set rows. Date_parse tz (punch_timestamp p) \<noteq> None"
  let ?entry = "\<lambda>d. (d, ins_of rows d, outs_of rows d)"
  let ?pairs = "map (pair_of tz) (group_punches rows)"
  let ?history = "sort_by (\<lambda>a b. localeCompare (date b) (date a)) ?pairs"
  have pairs: "?pairs = map (\<lambda>d. pair_of tz (?entry d)) (first_dates rows)"
    by (simp add: group_punches_eq comp_def)
  have dates: "map date ?pairs = first_dates rows"
    unfolding pairs using pair_of_valid(1) [OF valid] by (simp add: comp_def)
  have result: "getPunchHistory False tz now rnd (Inr rows) workerId days = Success ?history"
    by (simp add: getPunchHistory_def)
  have "mset ?history = mset ?pairs"
    by (rule mset_sort_by)
  then have "image_mset date (mset ?history) = image_mset date (mset ?pairs)"
    by (rule arg_cong)
  then have "mset (map date ?history) = mset (map date ?pairs)"
    by (simp only: mset_map)
  then have perm: "mset (map date ?history) = mset (first_dates rows)"
    by (simp only: dates)
  have dist: "distinct (map date ?history)"
    using perm first_dates_distinct [of rows] by (metis mset_eq_imp_distinct_iff)
  have cover: "set (map date ?history) = punch_date ` set rows"
    using perm first_dates_set [of rows] by (metis set_mset_mset)
  have each: "clockIn_ts pp = first_elem (ins_of rows (date pp))
            \<and> clockOut_ts pp = last_elem (outs_of rows (date pp))
            \<and> (case (clockIn_ts pp, clockOut_ts pp) of
                 (Some i, Some out) \<Rightarrow>
                   (\<exists>ti to. Date_parse tz i = Some ti \<and> Date_parse tz out = Some to
                      \<and> totalMs pp = Some (to - ti))
               | _ \<Rightarrow> totalMs pp = Some 0)"
    if "pp \<in> set ?history" for pp
  proof -
    from that have "pp \<in> set ?pairs"
      by (simp add: set_sort_by)
    then obtain d where pp: "pp = pair_of tz (?entry d)"
      unfolding pairs by auto
    have d: "date pp = d"
      unfolding pp using pair_of_valid(1) [OF valid] .
    show ?thesis
      using pair_of_valid(2-4) [OF valid, of d] unfolding d pp [symmetric] by blast
  qed
  have sorted: "sorted_wrt (\<lambda>a b. date b < date a) ?history"
    using sorted_sort_by_date dist by (rule sorted_strict_desc)
  show "\<exists>history. getPunchHistory False tz now rnd (Inr rows) workerId days = Success history
        \<and> distinct (map date history)
        \<and> set (map date history) = punch_date ` set rows
        \<and> (\<forall>pp \<in> set history.
              clockIn_ts pp = first_elem (ins_of rows (date pp))
            \<and> clockOut_ts pp = last_elem (outs_of rows (date pp))
            \<and> (case (clockIn_ts pp, clockOut_ts pp) of
                 (Some i, Some out) \<Rightarrow>
                   (\<exists>ti to. Date_parse tz i = Some ti \<and> Date_parse tz out = Some to
                      \<and> totalMs pp = Some (to - ti))
               | _ \<Rightarrow> totalMs pp = Some 0))
        \<and> sorted_wrt (\<lambda>a b. date b < date a) history"
    using result dist cover each sorted by blast
qed

lemma example_history:
  "getPunchHistory False 0 1705500000000 no_draws (Inr example_punches) ''u1'' 14 =
     Success
       [\<lparr>date = ''2024-01-17'', clockIn_ts = Some ''2024-01-17T09:00:00+00:00'',
          clockOut_ts = None, totalMs = Some 0\<rparr>,
        \<lparr>date = ''2024-01-16'', clockIn_ts = Some ''2024-01-16T08:05:00+00:00'',
          clockOut_ts = Some ''2024-01-16T16:40:00.123456+00:00'', totalMs = Some 30900123\<rparr>,
        \<lparr>date = ''2024-01-15'', clockIn_ts = Some ''2024-01-15T22:00:00+00:00'',
          clockOut_ts = Some ''2024-01-15T02:00:00+00:00'', totalMs = Some (- 72000000)\<rparr>]"
  by code_simp

theorem getPunchHistory_pairs_witness:
  "list_all (\<lambda>p. Date_parse 0 (punch_timestamp p) \<noteq> None) example_punches
   \<and> (\<exists>history. getPunchHistory False 0 1705500000000 no_draws (Inr example_punches) ''u1'' 14
          = Success history
        \<and> distinct (map date history)
        \<and> sorted_wrt (\<lambda>a b. date b < date a) history)"
proof -
  have readable: "list_all (\<lambda>p. Date_parse 0 (punch_timestamp p) \<noteq> None) example_punches"
    by code_simp
  then have valid: "\<forall>p \<in> set example_punches. Date_parse 0 (punch_timestamp p) \<noteq> None"
    by (simp add: list_all_iff)
  from getPunchHistory_pairs [of example_punches 0 1705500000000 no_draws "''u1''" 14] valid
  have "\<exists>history. getPunchHistory False 0 1705500000000 no_draws (Inr example_punches) ''u1'' 14
          = Success history
        \<and> distinct (map date history)
        \<and> sorted_wrt (\<lambda>a b. date b < date a) history"
    by blast
  with readable show ?thesis
    by blast
qed

subsection \<open>Properties of clockOut\<close>

lemma time_worked_null: "time_worked tz t None = (Some 0, ''Unknown'')"
  by (simp add: time_worked_def)

lemma time_worked_valid:
  assumes "s \<noteq> []" and "Date_parse tz s = Some t0"
  shows "time_worked tz t (Some s) = (Some (t - t0), formatDuration (t - t0))"
  using assms by (simp add: time_worked_def)

lemma clockOut_demo:
  "clockOut True tz st fault now new_id w cit =
     (Success \<lparr>out_punch = \<lparr>punch_id = ''demo-punch'', punch_worker_id = w,
                              punch_type = OUT, punch_timestamp = toISOString now\<rparr>,
               timeWorked = snd (time_worked tz now cit), timeWorkedMs = fst (time_worked tz now cit)\<rparr>,
      st\<lparr>demoState := (demoState st)(w \<mapsto> \<lparr>isClockedIn = False, clockInTime = None\<rparr>)\<rparr>)"
  by (simp add: clockOut_def split: prod.splits)

lemma clockOut_live:
  "clockOut False tz st None now new_id w cit =
     (Success \<lparr>out_punch = \<lparr>punch_id = new_id, punch_worker_id = w, punch_type = OUT,
                              punch_timestamp = store_timestamp now\<rparr>,
               timeWorked = snd (time_worked tz now cit), timeWorkedMs = fst (time_worked tz now cit)\<rparr>,
      st\<lparr>db := (db st)\<lparr>punches := punches (db st) @
           [\<lparr>punch_id = new_id, punch_worker_id = w, punch_type = OUT,
             punch_timestamp = store_timestamp now\<rparr>]\<rparr>\<rparr>)"
  by (simp add: clockOut_def Let_def split: prod.splits)

lemma clockOut_live_fault:
  "clockOut False tz st (Some err) now new_id w cit
     = (Failure ''Failed to clock out. Please try again.'', st)"
  by (simp add: clockOut_def split: prod.splits)

text \<open>
  C10. Clocking out with a null last clock-in time still succeeds whenever the punch is
  recorded (always in demo mode, in the store when the insert is not refused): the OUT
  punch of the worker is recorded (appended to the store's punches, or the demo clock
  state set to clocked out) and the answer carries \<open>timeWorkedMs = 0\<close> and the literal
  \<open>Unknown\<close> as \<open>timeWorked\<close>. Whenever the answer carries anything else, the caller
  supplied a non-null time; for a readable non-empty time the elapsed time is the clock
  minus that time, formatted by \<open>formatDuration\<close>.
\<close>

theorem clockOut_without_clock_in:
  "(DEMO_MODE \<or> fault = None \<longrightarrow>
      (\<exists>p st'. clockOut DEMO_MODE tz st fault now new_id w None
                 = (Success \<lparr>out_punch = p, timeWorked = ''Unknown'', timeWorkedMs = Some 0\<rparr>, st')
         \<and> punch_type p = OUT \<and> punch_worker_id p = w
         \<and> (if DEMO_MODE then demoState st' w = Some \<lparr>isClockedIn = False, clockInTime = None\<rparr>
             else punches (db st') = punches (db st) @ [p])))
   \<and> (\<forall>r st'. clockOut DEMO_MODE tz st fault now new_id w cit = (Success r, st')
         \<and> (timeWorkedMs r \<noteq> Some 0 \<or> timeWorked r \<noteq> ''Unknown'') \<longrightarrow> cit \<noteq> None)
   \<and> (\<forall>s t0 r st'. s \<noteq> [] \<and> Date_parse tz s = Some t0
         \<and> clockOut DEMO_MODE tz st fault now new_id w (Some s) = (Success r, st') \<longrightarrow>
           timeWorkedMs r = Some (now - t0) \<and> timeWorked r = formatDuration (now - t0))"
proof -
  have null_case: "\<exists>p st'. clockOut DEMO_MODE tz st fault now new_id w None
                 = (Success \<lparr>out_punch = p, timeWorked = ''Unknown'', timeWorkedMs = Some 0\<rparr>, st')
         \<and> punch_type p = OUT \<and> punch_worker_id p = w
         \<and> (if DEMO_MODE then demoState st' w = Some \<lparr>isClockedIn = False, clockInTime = None\<rparr>
             else punches (db st') = punches (db st) @ [p])"
    if "DEMO_MODE \<or> fault = None"
  proof (cases DEMO_MODE)
    case True
    then show ?thesis
      by (simp add: clockOut_demo time_worked_null)
  next
    case False
    with that have "fault = None" by simp
    with False show ?thesis
      by (simp add: clockOut_live time_worked_null)
  qed
  have only_if: "cit \<noteq> None"
    if "clockOut DEMO_MODE tz st fault now new_id w cit = (Success r, st')
         \<and> (timeWorkedMs r \<noteq> Some 0 \<or> timeWorked r \<noteq> ''Unknown'')" for r st'
  proof
    assume "cit = None"
    with that show False
      by (cases DEMO_MODE; cases fault)
         (auto simp: clockOut_demo clockOut_live clockOut_live_fault time_worked_null)
  qed
  have computed: "timeWorkedMs r = Some (now - t0) \<and> timeWorked r = formatDuration (now - t0)"
    if "s \<noteq> [] \<and> Date_parse tz s = Some t0
         \<and> clockOut DEMO_MODE tz st fault now new_id w (Some s) = (Success r, st')" for s t0 r st'
    using that
    by (cases DEMO_MODE; cases fault)
       (auto simp: clockOut_demo clockOut_live clockOut_live_fault time_worked_valid)
  show ?thesis
    using null_case only_if computed by blast
qed

theorem clockOut_without_clock_in_witness:
  "\<exists>p st'. clockOut False (- 18000000) initial_state None 1705323600000 ''p7'' ''u1'' None
                 = (Success \<lparr>out_punch = p, timeWorked = ''Unknown'', timeWorkedMs = Some 0\<rparr>, st')
         \<and> punch_type p = OUT \<and> punch_worker_id p = ''u1''
         \<and> punches (db st') = punches (db initial_state) @ [p]"
  using clockOut_without_clock_in [of False None "- 18000000" initial_state 1705323600000 "''p7''" "''u1''",
          THEN conjunct1]
  by simp

subsection \<open>Properties of getWeeklyHours\<close>

lemma local_day_midnight: "local_day tz (k * MS_PER_DAY - tz) = k"
  by (simp add: local_day_def MS_PER_DAY_def)

lemma local_day_minus_days: "local_day tz (minus_days t k) = local_day tz t - k"
proof -
  have "(t + tz - k * 86400000) div 86400000 = (t + tz) div 86400000 - k"
    using div_mult_self1 [of 86400000 "t + tz" "- k"] by simp
  then show ?thesis
    by (simp add: local_day_def minus_days_def MS_PER_DAY_def algebra_simps)
qed

lemma startOfWeek_eq:
  "startOfWeek tz now =
     (local_day tz now - (if getDay tz now = 0 then 6 else getDay tz now - 1)) * MS_PER_DAY - tz"
  by (simp add: startOfWeek_def Let_def setHours_def local_day_minus_days)

lemma week_start_is_monday: "getDay tz (startOfWeek tz now) = 1"
proof -
  define L where "L = local_day tz now"
  have "(L - (if (L + 4) mod 7 = 0 then 6 else (L + 4) mod 7 - 1) + 4) mod 7 = 1"
    by presburger
  then show ?thesis
    unfolding startOfWeek_eq getDay_def local_day_midnight L_def .
qed

lemma week_start_within_week:
  "startOfWeek tz now \<le> now" and "now < startOfWeek tz now + 7 * MS_PER_DAY"
proof -
  define L k where "L = local_day tz now"
    and "k = (if getDay tz now = 0 then 6 else getDay tz now - 1)"
  have k: "0 \<le> k" "k \<le> 6"
    by (auto simp: k_def getDay_def)
  have L: "L * 86400000 \<le> now + tz" "now + tz < L * 86400000 + 86400000"
    unfolding L_def local_day_def MS_PER_DAY_def
    using div_mult_mod_eq [of "now + tz" 86400000]
      pos_mod_bound [of 86400000 "now + tz"] pos_mod_sign [of 86400000 "now + tz"]
    by linarith+
  have s: "startOfWeek tz now = (L - k) * 86400000 - tz"
    by (simp add: startOfWeek_eq L_def k_def MS_PER_DAY_def)
  show "startOfWeek tz now \<le> now"
    unfolding s using k L by (simp add: algebra_simps)
  show "now < startOfWeek tz now + 7 * MS_PER_DAY"
    unfolding s MS_PER_DAY_def using k L by (simp add: algebra_simps)
qed

lemma weekly_keep_east:
  assumes "0 \<le> tz" and "tz < MS_PER_DAY"
  shows "startOfWeek tz now \<le> d * MS_PER_DAY \<longleftrightarrow> week_start_day tz now \<le> d"
proof -
  define W where "W = local_day tz now - (if getDay tz now = 0 then 6 else getDay tz now - 1)"
  have s: "startOfWeek tz now = W * MS_PER_DAY - tz"
    by (simp add: startOfWeek_eq W_def)
  have w: "week_start_day tz now = W"
    by (simp add: week_start_day_def s local_day_midnight)
  have "W * 86400000 - tz \<le> d * 86400000 \<longleftrightarrow> W \<le> d"
  proof (cases "W \<le> d")
    case True
    then have "W * 86400000 \<le> d * 86400000" by simp
    with assms(1) True show ?thesis by linarith
  next
    case False
    then have "d + 1 \<le> W" by simp
    then have "(d + 1) * 86400000 \<le> W * 86400000" by (simp only: mult_right_mono)
    then have "d * 86400000 + 86400000 \<le> W * 86400000" by (simp add: algebra_simps)
    with assms(2) False show ?thesis unfolding MS_PER_DAY_def by linarith
  qed
  then show ?thesis
    by (simp add: s w MS_PER_DAY_def)
qed


text \<open>
  C2 at a worker five hours west of Greenwich, on a Wednesday noon, with eight hours
  worked on Monday and on Tuesday: both pairs fall on or after the week start, yet the
  weekly total is the eight hours of one day, entered under \<open>Mon\<close>, and \<open>Tue\<close> has no
  entry: Monday's pair is dropped and Tuesday's is entered under Monday's name.
\<close>

theorem getWeeklyHours_west_of_Greenwich:
  "getPunchHistory False five_hours_west wednesday_noon no_draws (Inr week_punches) ''u1'' 7
     = Success [tuesday_pair, monday_pair]
   \<and> getDay five_hours_west wednesday_noon = 3
   \<and> toISOString (startOfWeek five_hours_west wednesday_noon) = ''2024-01-15T05:00:00.000Z''
   \<and> on_or_after_week_start five_hours_west wednesday_noon monday_pair
   \<and> on_or_after_week_start five_hours_west wednesday_noon tuesday_pair
   \<and> weekTotalMs (getWeeklyHours False five_hours_west wednesday_noon no_draws (Inr week_punches) ''u1'')
       = Some 28800000
   \<and> totalHours (getWeeklyHours False five_hours_west wednesday_noon no_draws (Inr week_punches) ''u1'')
       = Some 8
   \<and> dailyHours (getWeeklyHours False five_hours_west wednesday_noon no_draws (Inr week_punches) ''u1'') ''Mon''
       = Some (Some 8)
   \<and> dailyHours (getWeeklyHours False five_hours_west wednesday_noon no_draws (Inr week_punches) ''u1'') ''Tue''
       = None"
  by code_simp

lemma getWeeklyHours_at_Greenwich:
  "weekTotalMs (getWeeklyHours False 0 wednesday_noon no_draws (Inr week_punches) ''u1'')
       = Some 57600000
   \<and> dailyHours (getWeeklyHours False 0 wednesday_noon no_draws (Inr week_punches) ''u1'') ''Mon''
       = Some (Some 8)
   \<and> dailyHours (getWeeklyHours False 0 wednesday_noon no_draws (Inr week_punches) ''u1'') ''Tue''
       = Some (Some 8)"
  by code_simp

subsection \<open>Properties of the time-off listings\<close>

lemma oldest_first_props:
  "mset (oldest_first rows) = mset rows" "sorted (map created_at (oldest_first rows))"
  by (simp_all add: oldest_first_def)

lemma newest_first_mset: "mset (newest_first rows) = mset rows"
  by (simp add: newest_first_def)

lemma newest_first_desc: "sorted_wrt (\<lambda>a b. created_at b \<le> created_at a) (newest_first rows)"
proof -
  have "sorted (map created_at (sort_key created_at rows))"
    by simp
  then have "sorted_wrt (\<lambda>a b. created_at a \<le> created_at b) (sort_key created_at rows)"
    by (simp add: sorted_wrt_map)
  then show ?thesis
    by (simp add: newest_first_def sorted_wrt_rev)
qed

lemma desc_take_drop:
  assumes "sorted_wrt (\<lambda>a b. created_at b \<le> created_at a) ys"
  shows "sorted_wrt (\<lambda>a b. created_at b \<le> created_at a) (take n ys)"
    and "\<forall>a \<in> set (take n ys). \<forall>b \<in> set (drop n ys). created_at b \<le> created_at a"
proof -
  have "sorted_wrt (\<lambda>a b. created_at b \<le> created_at a) (take n ys @ drop n ys)"
    using assms by simp
  then show "sorted_wrt (\<lambda>a b. created_at b \<le> created_at a) (take n ys)"
    and "\<forall>a \<in> set (take n ys). \<forall>b \<in> set (drop n ys). created_at b \<le> created_at a"
    unfolding sorted_wrt_append by blast+
qed

lemma getMyTimeOffRequests_store:
  "\<exists>rows. getMyTimeOffRequests False st None w = map (with_reviewer_name st) rows
     \<and> mset rows = mset (filter (\<lambda>r. worker_id r = w) (time_off_requests st))"
  by (auto simp: getMyTimeOffRequests_def newest_first_mset)

lemma getAllPendingRequests_store:
  "\<exists>rows. getAllPendingRequests False st None = map (with_worker_name st) rows
     \<and> mset rows = mset (filter (\<lambda>r. status r = pending) (time_off_requests st))
     \<and> sorted (map created_at rows)"
  unfolding getAllPendingRequests_def using oldest_first_props by auto

lemma getAllTimeOffRequests_store:
  "\<exists>rows rest. getAllTimeOffRequests False st None
        = map (\<lambda>r. with_reviewer_name st (with_worker_name st r)) rows
     \<and> mset (rows @ rest) = mset (time_off_requests st)
     \<and> length rows = min 50 (length (time_off_requests st))
     \<and> sorted_wrt (\<lambda>a b. created_at b \<le> created_at a) rows
     \<and> (\<forall>a \<in> set rows. \<forall>b \<in> set rest. created_at b \<le> created_at a)"
proof -
  let ?ys = "newest_first (time_off_requests st)"
  have len: "length ?ys = length (time_off_requests st)"
    using newest_first_mset [of "time_off_requests st"] by (metis size_mset)
  have "getAllTimeOffRequests False st None
        = map (\<lambda>r. with_reviewer_name st (with_worker_name st r)) (take 50 ?ys)"
    by (simp add: getAllTimeOffRequests_def)
  moreover have "mset (take 50 ?ys @ drop 50 ?ys) = mset (time_off_requests st)"
    by (simp add: newest_first_mset)
  moreover have "length (take 50 ?ys) = min 50 (length (time_off_requests st))"
    using len by simp
  moreover note desc_take_drop [OF newest_first_desc, of 50 "time_off_requests st"]
  ultimately show ?thesis by blast
qed

lemma listings_demo:
  assumes "DEMO_MODE \<or> fault \<noteq> None"
  shows "getMyTimeOffRequests DEMO_MODE st fault w = filter (\<lambda>r. worker_id r = w) (DEMO_REQUESTS st)"
    and "getAllPendingRequests DEMO_MODE st fault = filter (\<lambda>r. status r = pending) (DEMO_REQUESTS st)"
    and "getAllTimeOffRequests DEMO_MODE st fault = DEMO_REQUESTS st"
  using assms
  by (auto simp: getMyTimeOffRequests_def getAllPendingRequests_def getAllTimeOffRequests_def)

lemma submit_demo_prepends:
  "DEMO_REQUESTS (snd (submitTimeOffRequest True st fault now new_id w data))
     = createDemoRequest now w data # DEMO_REQUESTS st"
  by (simp add: submitTimeOffRequest_def Let_def)

text \<open>
  C7 (amended). Against the persisted store, when the query is answered: \<open>mine\<close> are
  exactly the rows of the given worker; \<open>pending\<close> are exactly the rows with status
  pending, oldest first; \<open>all\<close> are the most recently created rows, most recent first,
  at most 50 of them (each row with the joined names added). In demo mode, and when the
  query fails, the listings are read off the demo list, which a submission extends at
  its head: \<open>mine\<close> are its requests of the given worker, \<open>pending\<close> its requests with
  status pending in list order, and \<open>all\<close> is the whole list, without a cap.
\<close>

theorem listings_by_mode:
  "(\<not> DEMO_MODE \<and> fault = None \<longrightarrow>
      (\<exists>rows. getMyTimeOffRequests DEMO_MODE st fault w = map (with_reviewer_name st) rows
         \<and> mset rows = mset (filter (\<lambda>r. worker_id r = w) (time_off_requests st)))
    \<and> (\<exists>rows. getAllPendingRequests DEMO_MODE st fault = map (with_worker_name st) rows
         \<and> mset rows = mset (filter (\<lambda>r. status r = pending) (time_off_requests st))
         \<and> sorted (map created_at rows))
    \<and> (\<exists>rows rest. getAllTimeOffRequests DEMO_MODE st fault
            = map (\<lambda>r. with_reviewer_name st (with_worker_name st r)) rows
         \<and> mset (rows @ rest) = mset (time_off_requests st)
         \<and> length rows = min 50 (length (time_off_requests st))
         \<and> sorted_wrt (\<lambda>a b. created_at b \<le> created_at a) rows
         \<and> (\<forall>a \<in> set rows. \<forall>b \<in> set rest. created_at b \<le> created_at a)))
   \<and> (DEMO_MODE \<or> fault \<noteq> None \<longrightarrow>
      getMyTimeOffRequests DEMO_MODE st fault w = filter (\<lambda>r. worker_id r = w) (DEMO_REQUESTS st)
    \<and> getAllPendingRequests DEMO_MODE st fault = filter (\<lambda>r. status r = pending) (DEMO_REQUESTS st)
    \<and> getAllTimeOffRequests DEMO_MODE st fault = DEMO_REQUESTS st)
   \<and> DEMO_REQUESTS (snd (submitTimeOffRequest True st fault now new_id w data))
       = createDemoRequest now w data # DEMO_REQUESTS st"
proof (intro conjI impI)
  assume "\<not> DEMO_MODE \<and> fault = None"
  then have mode: "DEMO_MODE = False" "fault = None" by simp_all
  show "\<exists>rows. getMyTimeOffRequests DEMO_MODE st fault w = map (with_reviewer_name st) rows
         \<and> mset rows = mset (filter (\<lambda>r. worker_id r = w) (time_off_requests st))"
    unfolding mode by (rule getMyTimeOffRequests_store)
  show "\<exists>rows. getAllPendingRequests DEMO_MODE st fault = map (with_worker_name st) rows
         \<and> mset rows = mset (filter (\<lambda>r. status r = pending) (time_off_requests st))
         \<and> sorted (map created_at rows)"
    unfolding mode by (rule getAllPendingRequests_store)
  show "\<exists>rows rest. getAllTimeOffRequests DEMO_MODE st fault
            = map (\<lambda>r. with_reviewer_name st (with_worker_name st r)) rows
         \<and> mset (rows @ rest) = mset (time_off_requests st)
         \<and> length rows = min 50 (length (time_off_requests st))
         \<and> sorted_wrt (\<lambda>a b. created_at b \<le> created_at a) rows
         \<and> (\<forall>a \<in> set rows. \<forall>b \<in> set rest. created_at b \<le> created_at a)"
    unfolding mode by (rule getAllTimeOffRequests_store)
next
  assume demo: "DEMO_MODE \<or> fault \<noteq> None"
  show "getMyTimeOffRequests DEMO_MODE st fault w = filter (\<lambda>r. worker_id r = w) (DEMO_REQUESTS st)"
    using demo by (rule listings_demo)
  show "getAllPendingRequests DEMO_MODE st fault = filter (\<lambda>r. status r = pending) (DEMO_REQUESTS st)"
    using demo by (rule listings_demo)
  show "getAllTimeOffRequests DEMO_MODE st fault = DEMO_REQUESTS st"
    using demo by (rule listings_demo)
next
  show "DEMO_REQUESTS (snd (submitTimeOffRequest True st fault now new_id w data))
       = createDemoRequest now w data # DEMO_REQUESTS st"
    by (rule submit_demo_prepends)
qed


theorem listings_by_mode_witness:
  "\<exists>rows. getAllPendingRequests False (two_submitted False) None
             = map (with_worker_name (two_submitted False)) rows
     \<and> mset rows = mset (filter (\<lambda>r. status r = pending) (time_off_requests (two_submitted False)))
     \<and> sorted (map created_at rows)"
  using listings_by_mode [of False None "two_submitted False"]
  by simp

theorem pending_listing_demo_newest_first:
  "map req_id (getAllPendingRequests True (two_submitted True) None)
     = [''demo-req-2000'', ''demo-req-1000'']
   \<and> map status (getAllPendingRequests True (two_submitted True) None) = [pending, pending]
   \<and> map created_at (getAllPendingRequests True (two_submitted True) None) = [2000, 1000]
   \<and> \<not> sorted (map created_at (getAllPendingRequests True (two_submitted True) None))"
  by code_simp

subsection \<open>Properties of approveRequest\<close>

lemma demo_id_startsWith: "startsWith (req_id (createDemoRequest now w data)) ''demo-''"
  by (simp add: createDemoRequest_def startsWith_def)

lemma approve_updates_fields:
  "req_id (approve_updates t m r) = req_id r"
  "status (approve_updates t m r) = approved"
  "reviewed_by (approve_updates t m r) = Some m"
  "reviewed_at (approve_updates t m r) = Some t"
  by (simp_all add: approve_updates_def)

lemma update_where_id_approved:
  assumes "x \<in> set (update_where_id i (approve_updates t m) rows)" and "req_id x = i"
  shows "status x = approved \<and> reviewed_by x = Some m \<and> reviewed_at x = Some t"
proof -
  from assms(1) have "x \<in> (\<lambda>r. if req_id r = i then approve_updates t m r else r) ` set rows"
    by (simp add: update_where_id_def)
  then obtain r0 where
    x: "x = (if req_id r0 = i then approve_updates t m r0 else r0)"
    by blast
  show ?thesis
  proof (cases "req_id r0 = i")
    case True
    with x show ?thesis
      by (simp add: approve_updates_fields)
  next
    case False
    with x assms(2) show ?thesis
      by simp
  qed
qed

lemma update_where_id_ids:
  assumes "\<And>r. req_id (u r) = req_id r"
  shows "map req_id (update_where_id i u rows) = map req_id rows"
  using assms by (simp add: update_where_id_def)

lemma with_worker_name_fields:
  "req_id (with_worker_name st r) = req_id r" "status (with_worker_name st r) = status r"
  by (simp_all add: with_worker_name_def)

lemma pending_listing_source:
  assumes "x \<in> set (getAllPendingRequests DEMO_MODE st fault)"
  shows "\<exists>r \<in> set (all_requests st). req_id r = req_id x \<and> status r = pending"
proof (cases "DEMO_MODE \<or> fault \<noteq> None")
  case True
  with assms have "x \<in> set (filter (\<lambda>r. status r = pending) (DEMO_REQUESTS st))"
    by (simp add: getAllPendingRequests_def)
  then have "x \<in> set (all_requests st)" "status x = pending"
    by (simp_all add: all_requests_def)
  then show ?thesis by blast
next
  case False
  with assms have "x \<in> with_worker_name st `
      set (oldest_first (filter (\<lambda>r. status r = pending) (time_off_requests st)))"
    by (simp add: getAllPendingRequests_def)
  then obtain r0 where x: "x = with_worker_name st r0"
    and "r0 \<in> set (oldest_first (filter (\<lambda>r. status r = pending) (time_off_requests st)))"
    by blast
  then have "r0 \<in> set (filter (\<lambda>r. status r = pending) (time_off_requests st))"
    by (simp add: oldest_first_def)
  then have "r0 \<in> set (all_requests st)" "status r0 = pending"
    by (simp_all add: all_requests_def)
  with x show ?thesis
    using with_worker_name_fields(1) [of st r0] by metis
qed

lemma no_id_in:
  assumes "list_all (\<lambda>r. P (req_id r)) rows" and "\<not> P i"
  shows "\<forall>r \<in> set rows. req_id r \<noteq> i"
  using assms by (auto simp: list_all_iff)

lemma approve_after_submit:
  assumes ok: "ids_ok st" and fresh: "\<not> startsWith new_id ''demo-''"
    and sub: "submitTimeOffRequest DEMO_MODE st f1 t1 new_id w data = (Success r, sa)"
    and upd: "DEMO_MODE \<or> startsWith (req_id r) ''demo-'' \<or> f2 = None"
  shows "status r = pending"
    and "\<exists>r' \<in> set (all_requests (approveRequest DEMO_MODE sa f2 t2 (req_id r) m)).
           req_id r' = req_id r"
    and "\<forall>r' \<in> set (all_requests (approveRequest DEMO_MODE sa f2 t2 (req_id r) m)).
           req_id r' = req_id r \<longrightarrow>
           status r' = approved \<and> reviewed_by r' = Some m \<and> reviewed_at r' = Some t2"
proof -
  define sb where "sb = approveRequest DEMO_MODE sa f2 t2 (req_id r) m"
  from ok have demo_ids: "list_all (\<lambda>r. startsWith (req_id r) ''demo-'') (DEMO_REQUESTS st)"
    and store_ids: "list_all (\<lambda>r. \<not> startsWith (req_id r) ''demo-'') (time_off_requests st)"
    by (simp_all add: ids_ok_def)
  show "status r = pending"
    using sub
    by (auto simp: submitTimeOffRequest_def Let_def createDemoRequest_def inserted_row_def
          split: if_splits)
  consider (demo) "DEMO_MODE \<or> f1 \<noteq> None" | (store) "\<not> DEMO_MODE" "f1 = None"
    by blast
  then have "(\<exists>r' \<in> set (all_requests sb). req_id r' = req_id r)
    \<and> (\<forall>r' \<in> set (all_requests sb). req_id r' = req_id r \<longrightarrow>
           status r' = approved \<and> reviewed_by r' = Some m \<and> reviewed_at r' = Some t2)"
  proof cases
    case demo
    with sub have r: "r = createDemoRequest t1 w data"
      and sa: "sa = st\<lparr>DEMO_REQUESTS := r # DEMO_REQUESTS st\<rparr>"
      by (auto simp: submitTimeOffRequest_def Let_def)
    have pre: "startsWith (req_id r) ''demo-''"
      unfolding r by (rule demo_id_startsWith)
    have sb: "sb = sa\<lparr>DEMO_REQUESTS :=
                 update_where_id (req_id r) (approve_updates t2 m) (DEMO_REQUESTS sa)\<rparr>"
      using pre by (simp add: sb_def approveRequest_def updateDemoRequest_def)
    have none: "\<forall>x \<in> set (time_off_requests st). req_id x \<noteq> req_id r"
      using store_ids pre by (auto simp: list_all_iff)
    have there: "req_id r \<in> set (map req_id (DEMO_REQUESTS sb))"
      unfolding sb using update_where_id_ids [of "approve_updates t2 m"]
      by (simp add: sa approve_updates_fields)
    have "\<forall>r' \<in> set (DEMO_REQUESTS sb). req_id r' = req_id r \<longrightarrow>
           status r' = approved \<and> reviewed_by r' = Some m \<and> reviewed_at r' = Some t2"
      unfolding sb using update_where_id_approved by simp
    moreover have "time_off_requests sb = time_off_requests st"
      by (simp add: sb sa)
    ultimately show ?thesis
      using none there by (auto simp: all_requests_def)
  next
    case store
    with sub have r: "r = inserted_row t1 new_id w data"
      and sa: "sa = st\<lparr>time_off_requests := time_off_requests st @ [r]\<rparr>"
      by (auto simp: submitTimeOffRequest_def Let_def)
    have id: "req_id r = new_id"
      by (simp add: r inserted_row_def)
    from upd store fresh id have f2: "f2 = None"
      by simp
    have sb: "sb = sa\<lparr>time_off_requests :=
                 update_where_id (req_id r) (approve_updates t2 m) (time_off_requests sa)\<rparr>"
      using store fresh f2 id by (simp add: sb_def approveRequest_def)
    have none: "\<forall>x \<in> set (DEMO_REQUESTS st). req_id x \<noteq> req_id r"
      using demo_ids fresh id by (auto simp: list_all_iff)
    have there: "req_id r \<in> set (map req_id (time_off_requests sb))"
      unfolding sb using update_where_id_ids [of "approve_updates t2 m"]
      by (simp add: sa approve_updates_fields)
    have "\<forall>r' \<in> set (time_off_requests sb). req_id r' = req_id r \<longrightarrow>
           status r' = approved \<and> reviewed_by r' = Some m \<and> reviewed_at r' = Some t2"
      unfolding sb using update_where_id_approved by simp
    moreover have "DEMO_REQUESTS sb = DEMO_REQUESTS st"
      by (simp add: sb sa)
    ultimately show ?thesis
      using none there by (auto simp: all_requests_def)
  qed
  then show "\<exists>r' \<in> set (all_requests (approveRequest DEMO_MODE sa f2 t2 (req_id r) m)).
           req_id r' = req_id r"
    and "\<forall>r' \<in> set (all_requests (approveRequest DEMO_MODE sa f2 t2 (req_id r) m)).
           req_id r' = req_id r \<longrightarrow>
           status r' = approved \<and> reviewed_by r' = Some m \<and> reviewed_at r' = Some t2"
    unfolding sb_def by blast+
qed


lemma approve_applied:
  "ids_ok st \<and> \<not> startsWith new_id ''demo-''
   \<and> submitTimeOffRequest DEMO_MODE st f1 t1 new_id w data = (Success r, sa)
   \<and> (DEMO_MODE \<or> startsWith (req_id r) ''demo-'' \<or> f2 = None) \<longrightarrow>
     status r = pending
     \<and> (\<exists>r' \<in> set (all_requests (approveRequest DEMO_MODE sa f2 t2 (req_id r) m)).
           req_id r' = req_id r)
     \<and> (\<forall>r' \<in> set (all_requests (approveRequest DEMO_MODE sa f2 t2 (req_id r) m)).
           req_id r' = req_id r \<longrightarrow>
             status r' = approved \<and> reviewed_by r' = Some m \<and> reviewed_at r' = Some t2)
     \<and> (\<forall>f3. \<forall>x \<in> set (getAllPendingRequests DEMO_MODE
                             (approveRequest DEMO_MODE sa f2 t2 (req_id r) m) f3).
           req_id x \<noteq> req_id r)"
proof
  assume h: "ids_ok st \<and> \<not> startsWith new_id ''demo-''
   \<and> submitTimeOffRequest DEMO_MODE st f1 t1 new_id w data = (Success r, sa)
   \<and> (DEMO_MODE \<or> startsWith (req_id r) ''demo-'' \<or> f2 = None)"
  let ?sb = "approveRequest DEMO_MODE sa f2 t2 (req_id r) m"
  from h have ok: "ids_ok st" and fresh: "\<not> startsWith new_id ''demo-''"
    and sub: "submitTimeOffRequest DEMO_MODE st f1 t1 new_id w data = (Success r, sa)"
    and upd: "DEMO_MODE \<or> startsWith (req_id r) ''demo-'' \<or> f2 = None"
    by blast+
  note facts = approve_after_submit [OF ok fresh sub upd]
  have listed: "req_id x \<noteq> req_id r" if "x \<in> set (getAllPendingRequests DEMO_MODE ?sb f3)" for f3 x
  proof
    assume same: "req_id x = req_id r"
    from pending_listing_source [OF that] obtain r0 where
      "r0 \<in> set (all_requests ?sb)" "req_id r0 = req_id x" "status r0 = pending"
      by blast
    with same facts(3) [of t2 m] show False
      by auto
  qed
  show "status r = pending
     \<and> (\<exists>r' \<in> set (all_requests ?sb). req_id r' = req_id r)
     \<and> (\<forall>r' \<in> set (all_requests ?sb). req_id r' = req_id r \<longrightarrow>
             status r' = approved \<and> reviewed_by r' = Some m \<and> reviewed_at r' = Some t2)
     \<and> (\<forall>f3. \<forall>x \<in> set (getAllPendingRequests DEMO_MODE ?sb f3). req_id x \<noteq> req_id r)"
    using facts(1) facts(2) [of t2 m] facts(3) [of t2 m] listed by blast
qed

lemma submit_pending:
  assumes "submitTimeOffRequest DEMO_MODE st f1 t1 new_id w data = (Success r, sa)"
  shows "status r = pending"
  using assms
  by (auto simp: submitTimeOffRequest_def Let_def createDemoRequest_def inserted_row_def
        split: if_splits)

lemma approve_refused:
  assumes sub: "submitTimeOffRequest DEMO_MODE st f1 t1 new_id w data = (Success r, sa)"
    and store: "\<not> DEMO_MODE" and id: "\<not> startsWith (req_id r) ''demo-''"
    and refused: "f2 \<noteq> None"
  shows "time_off_requests (approveRequest DEMO_MODE sa f2 t2 (req_id r) m)
           = time_off_requests sa"
    and "r \<in> set (time_off_requests (approveRequest DEMO_MODE sa f2 t2 (req_id r) m))"
    and "\<exists>x \<in> set (getAllPendingRequests DEMO_MODE
                      (approveRequest DEMO_MODE sa f2 t2 (req_id r) m) None).
           req_id x = req_id r"
proof -
  define sb where "sb = approveRequest DEMO_MODE sa f2 t2 (req_id r) m"
  have f1: "f1 = None"
  proof (rule ccontr)
    assume "f1 \<noteq> None"
    with sub have "r = createDemoRequest t1 w data"
      by (auto simp: submitTimeOffRequest_def Let_def)
    with id show False
      using demo_id_startsWith [of t1 w data] by simp
  qed
  from sub store f1 have sa: "time_off_requests sa = time_off_requests st @ [r]"
    by (auto simp: submitTimeOffRequest_def Let_def)
  have same: "time_off_requests sb = time_off_requests sa"
    using store id refused
    by (simp add: sb_def approveRequest_def updateDemoRequest_def Let_def)
  have there: "r \<in> set (time_off_requests sb)"
    by (simp add: same sa)
  have "status r = pending"
    using sub by (rule submit_pending)
  with there have "r \<in> set (oldest_first (filter (\<lambda>r. status r = pending) (time_off_requests sb)))"
    by (simp add: oldest_first_def)
  then have "with_worker_name sb r \<in> set (getAllPendingRequests DEMO_MODE sb None)"
    using store by (simp add: getAllPendingRequests_def)
  then have listed: "\<exists>x \<in> set (getAllPendingRequests DEMO_MODE sb None). req_id x = req_id r"
    using with_worker_name_fields(1) [of sb r] by blast
  show "time_off_requests (approveRequest DEMO_MODE sa f2 t2 (req_id r) m)
           = time_off_requests sa"
    using same by (simp add: sb_def)
  show "r \<in> set (time_off_requests (approveRequest DEMO_MODE sa f2 t2 (req_id r) m))"
    using there by (simp add: sb_def)
  show "\<exists>x \<in> set (getAllPendingRequests DEMO_MODE
                      (approveRequest DEMO_MODE sa f2 t2 (req_id r) m) None).
           req_id x = req_id r"
    using listed by (simp add: sb_def)
qed

text \<open>
  C8 (amended). A request that \<^verbatim>\<open>submitTimeOffRequest\<close> has created is pending. A
  subsequent \<^verbatim>\<open>approveRequest\<close> for its id that is applied to it, as it always is in
  demo mode and for a demo record, and against the store when the store performs the
  update, leaves the request on record, every record with its id with status approved
  and carrying the reviewer and the review time, and no pending listing, whether it is
  answered by the store or falls back to the demo list, contains it. When the store
  refuses the update of a stored request, \<^verbatim>\<open>approveRequest\<close> changes the demo list
  only: the table of the store is as before, the request is in it as it was submitted,
  pending and unreviewed, and the pending listing that the store answers contains it.
  Ids are those the system makes: demo records are named \<open>demo-...\<close>, rows of the store
  are not.
\<close>

theorem approveRequest_after_submit:
  "ids_ok st \<and> \<not> startsWith new_id ''demo-''
    \<and> submitTimeOffRequest DEMO_MODE st f1 t1 new_id w data = (Success r, sa) \<longrightarrow>
      status r = pending
      \<and> (DEMO_MODE \<or> startsWith (req_id r) ''demo-'' \<or> f2 = None \<longrightarrow>
          (\<exists>r' \<in> set (all_requests (approveRequest DEMO_MODE sa f2 t2 (req_id r) m)).
              req_id r' = req_id r)
        \<and> (\<forall>r' \<in> set (all_requests (approveRequest DEMO_MODE sa f2 t2 (req_id r) m)).
              req_id r' = req_id r \<longrightarrow>
                status r' = approved \<and> reviewed_by r' = Some m \<and> reviewed_at r' = Some t2)
        \<and> (\<forall>f3. \<forall>x \<in> set (getAllPendingRequests DEMO_MODE
                                (approveRequest DEMO_MODE sa f2 t2 (req_id r) m) f3).
              req_id x \<noteq> req_id r))
      \<and> (\<not> DEMO_MODE \<and> \<not> startsWith (req_id r) ''demo-'' \<and> f2 \<noteq> None \<longrightarrow>
          time_off_requests (approveRequest DEMO_MODE sa f2 t2 (req_id r) m)
            = time_off_requests sa
        \<and> r \<in> set (time_off_requests (approveRequest DEMO_MODE sa f2 t2 (req_id r) m))
        \<and> (\<exists>x \<in> set (getAllPendingRequests DEMO_MODE
                          (approveRequest DEMO_MODE sa f2 t2 (req_id r) m) None).
              req_id x = req_id r))"
proof (intro impI)
  assume h: "ids_ok st \<and> \<not> startsWith new_id ''demo-''
    \<and> submitTimeOffRequest DEMO_MODE st f1 t1 new_id w data = (Success r, sa)"
  then have sub: "submitTimeOffRequest DEMO_MODE st f1 t1 new_id w data = (Success r, sa)"
    by blast
  have c1: "status r = pending"
    using sub by (rule submit_pending)
  have c2: "DEMO_MODE \<or> startsWith (req_id r) ''demo-'' \<or> f2 = None \<longrightarrow>
          (\<exists>r' \<in> set (all_requests (approveRequest DEMO_MODE sa f2 t2 (req_id r) m)).
              req_id r' = req_id r)
        \<and> (\<forall>r' \<in> set (all_requests (approveRequest DEMO_MODE sa f2 t2 (req_id r) m)).
              req_id r' = req_id r \<longrightarrow>
                status r' = approved \<and> reviewed_by r' = Some m \<and> reviewed_at r' = Some t2)
        \<and> (\<forall>f3. \<forall>x \<in> set (getAllPendingRequests DEMO_MODE
                                (approveRequest DEMO_MODE sa f2 t2 (req_id r) m) f3).
              req_id x \<noteq> req_id r)"
    using h approve_applied [of st new_id DEMO_MODE f1 t1 w data r sa f2 t2 m] by blast
  have c3: "\<not> DEMO_MODE \<and> \<not> startsWith (req_id r) ''demo-'' \<and> f2 \<noteq> None \<longrightarrow>
          time_off_requests (approveRequest DEMO_MODE sa f2 t2 (req_id r) m)
            = time_off_requests sa
        \<and> r \<in> set (time_off_requests (approveRequest DEMO_MODE sa f2 t2 (req_id r) m))
        \<and> (\<exists>x \<in> set (getAllPendingRequests DEMO_MODE
                          (approveRequest DEMO_MODE sa f2 t2 (req_id r) m) None).
              req_id x = req_id r)"
    using approve_refused [OF sub, of f2 t2 m] by blast
  show "status r = pending
      \<and> (DEMO_MODE \<or> startsWith (req_id r) ''demo-'' \<or> f2 = None \<longrightarrow>
          (\<exists>r' \<in> set (all_requests (approveRequest DEMO_MODE sa f2 t2 (req_id r) m)).
              req_id r' = req_id r)
        \<and> (\<forall>r' \<in> set (all_requests (approveRequest DEMO_MODE sa f2 t2 (req_id r) m)).
              req_id r' = req_id r \<longrightarrow>
                status r' = approved \<and> reviewed_by r' = Some m \<and> reviewed_at r' = Some t2)
        \<and> (\<forall>f3. \<forall>x \<in> set (getAllPendingRequests DEMO_MODE
                                (approveRequest DEMO_MODE sa f2 t2 (req_id r) m) f3).
              req_id x \<noteq> req_id r))
      \<and> (\<not> DEMO_MODE \<and> \<not> startsWith (req_id r) ''demo-'' \<and> f2 \<noteq> None \<longrightarrow>
          time_off_requests (approveRequest DEMO_MODE sa f2 t2 (req_id r) m)
            = time_off_requests sa
        \<and> r \<in> set (time_off_requests (approveRequest DEMO_MODE sa f2 t2 (req_id r) m))
        \<and> (\<exists>x \<in> set (getAllPendingRequests DEMO_MODE
                          (approveRequest DEMO_MODE sa f2 t2 (req_id r) m) None).
              req_id x = req_id r))"
    by (rule conjI, rule c1, rule conjI, rule c2, rule c3)
qed

theorem approveRequest_after_submit_witness:
  "\<exists>r sa. submitTimeOffRequest False empty_timeoff None 1000 ''a1'' ''u1'' vacation_input
             = (Success r, sa)
     \<and> status r = pending
     \<and> (\<exists>r'. r' \<in> set (all_requests (approveRequest False sa None 2000 (req_id r) ''m1''))
           \<and> req_id r' = req_id r \<and> status r' = approved
           \<and> reviewed_by r' = Some ''m1'' \<and> reviewed_at r' = Some 2000)"
proof -
  obtain r sa where sub:
    "submitTimeOffRequest False empty_timeoff None 1000 ''a1'' ''u1'' vacation_input = (Success r, sa)"
    by (simp add: submitTimeOffRequest_def Let_def)
  have ok: "ids_ok empty_timeoff"
    by (simp add: ids_ok_def empty_timeoff_def)
  have fresh: "\<not> startsWith ''a1'' ''demo-''"
    by (simp add: startsWith_def)
  from approveRequest_after_submit
         [of empty_timeoff "''a1''" False None 1000 "''u1''" vacation_input r sa None 2000 "''m1''"]
       ok fresh sub
  show ?thesis
    by blast
qed

text \<open>
  A stored request whose approval the store refuses stays pending, unreviewed and
  listed.
\<close>

theorem approveRequest_refused_leaves_pending:
  "map req_id (time_off_requests one_stored) = [''a1'']
   \<and> map status (time_off_requests (approveRequest False one_stored (Some ''23503'') 2000 ''a1'' ''admin''))
        = [pending]
   \<and> map reviewed_by (time_off_requests (approveRequest False one_stored (Some ''23503'') 2000 ''a1'' ''admin''))
        = [None]
   \<and> map req_id (getAllPendingRequests False
          (approveRequest False one_stored (Some ''23503'') 2000 ''a1'' ''admin'') None) = [''a1'']"
  by (simp add: one_stored_def submitTimeOffRequest_def inserted_row_def empty_timeoff_def
        approveRequest_def updateDemoRequest_def update_where_id_def startsWith_def
        getAllPendingRequests_def oldest_first_def with_worker_name_def Let_def)

subsection \<open>Properties of the review workflow\<close>

lemma stays_reviewed_refl: "list_all2 stays_reviewed rows rows"
  by (simp add: list_all2_refl stays_reviewed_def)

lemma stays_reviewed_trans:
  assumes "list_all2 stays_reviewed xs ys" and "list_all2 stays_reviewed ys zs"
  shows "list_all2 stays_reviewed xs zs"
  using assms
  by (rule list_all2_trans [rotated]) (auto simp: stays_reviewed_def)

lemma deny_updates_fields:
  "req_id (deny_updates t m reason r) = req_id r"
  "status (deny_updates t m reason r) = denied"
  by (simp_all add: deny_updates_def)

lemma update_where_id_stays:
  assumes "\<And>r. req_id (u r) = req_id r" and "\<And>r. status (u r) \<noteq> pending"
  shows "list_all2 stays_reviewed rows (update_where_id i u rows)"
  using assms
  by (induction rows) (simp_all add: update_where_id_def stays_reviewed_def)

lemma extends_reviewed_refl: "extends_reviewed st st"
  unfolding extends_reviewed_def
  using stays_reviewed_refl [of "DEMO_REQUESTS st"] stays_reviewed_refl [of "time_off_requests st"]
  by (metis append_Nil append_Nil2)

lemma extends_reviewedI:
  assumes "DEMO_REQUESTS st' = demo_new @ demo_old"
    and "time_off_requests st' = store_old @ store_new"
    and "list_all2 stays_reviewed (DEMO_REQUESTS st) demo_old"
    and "list_all2 stays_reviewed (time_off_requests st) store_old"
  shows "extends_reviewed st st'"
  unfolding extends_reviewed_def using assms by blast

lemma extends_reviewed_trans:
  assumes "extends_reviewed a b" and "extends_reviewed b c"
  shows "extends_reviewed a c"
proof -
  from assms(1) obtain dn1 do1 so1 sn1 where
    b: "DEMO_REQUESTS b = dn1 @ do1" "time_off_requests b = so1 @ sn1"
    and ab: "list_all2 stays_reviewed (DEMO_REQUESTS a) do1"
            "list_all2 stays_reviewed (time_off_requests a) so1"
    unfolding extends_reviewed_def by blast
  from assms(2) obtain dn2 do2 so2 sn2 where
    c: "DEMO_REQUESTS c = dn2 @ do2" "time_off_requests c = so2 @ sn2"
    and bc: "list_all2 stays_reviewed (dn1 @ do1) do2"
            "list_all2 stays_reviewed (so1 @ sn1) so2"
    unfolding extends_reviewed_def b by blast
  from bc(1) obtain d2a d2b where d2: "do2 = d2a @ d2b"
    and d2b: "list_all2 stays_reviewed do1 d2b"
    by (auto simp: list_all2_append1)
  from bc(2) obtain s2a s2b where s2: "so2 = s2a @ s2b"
    and s2a: "list_all2 stays_reviewed so1 s2a"
    by (auto simp: list_all2_append1)
  show ?thesis
  proof (rule extends_reviewedI)
    show "DEMO_REQUESTS c = (dn2 @ d2a) @ d2b"
      by (simp add: c d2)
    show "time_off_requests c = s2a @ (s2b @ sn2)"
      by (simp add: c s2)
    show "list_all2 stays_reviewed (DEMO_REQUESTS a) d2b"
      using ab(1) d2b by (rule stays_reviewed_trans)
    show "list_all2 stays_reviewed (time_off_requests a) s2a"
      using ab(2) s2a by (rule stays_reviewed_trans)
  qed
qed

lemma submit_extends:
  "extends_reviewed st (snd (submitTimeOffRequest DEMO_MODE st fault now new_id w data))"
proof (cases "DEMO_MODE \<or> fault \<noteq> None")
  case True
  show ?thesis
  proof (rule extends_reviewedI)
    show "DEMO_REQUESTS (snd (submitTimeOffRequest DEMO_MODE st fault now new_id w data))
            = [createDemoRequest now w data] @ DEMO_REQUESTS st"
      using True by (simp add: submitTimeOffRequest_def Let_def)
    show "time_off_requests (snd (submitTimeOffRequest DEMO_MODE st fault now new_id w data))
            = time_off_requests st @ []"
      using True by (simp add: submitTimeOffRequest_def Let_def)
  qed (rule stays_reviewed_refl)+
next
  case False
  show ?thesis
  proof (rule extends_reviewedI)
    show "DEMO_REQUESTS (snd (submitTimeOffRequest DEMO_MODE st fault now new_id w data))
            = [] @ DEMO_REQUESTS st"
      using False by (simp add: submitTimeOffRequest_def Let_def)
    show "time_off_requests (snd (submitTimeOffRequest DEMO_MODE st fault now new_id w data))
            = time_off_requests st @ [inserted_row now new_id w data]"
      using False by (simp add: submitTimeOffRequest_def Let_def)
  qed (rule stays_reviewed_refl)+
qed

lemma review_extends:
  assumes "\<And>r. req_id (u r) = req_id r" and "\<And>r. status (u r) \<noteq> pending"
  shows "extends_reviewed st (updateDemoRequest i u st)"
    and "extends_reviewed st (st\<lparr>time_off_requests := update_where_id i u (time_off_requests st)\<rparr>)"
proof -
  show "extends_reviewed st (updateDemoRequest i u st)"
  proof (rule extends_reviewedI)
    show "DEMO_REQUESTS (updateDemoRequest i u st) = [] @ update_where_id i u (DEMO_REQUESTS st)"
      by (simp add: updateDemoRequest_def)
    show "time_off_requests (updateDemoRequest i u st) = time_off_requests st @ []"
      by (simp add: updateDemoRequest_def)
    show "list_all2 stays_reviewed (DEMO_REQUESTS st) (update_where_id i u (DEMO_REQUESTS st))"
      using assms by (rule update_where_id_stays)
    show "list_all2 stays_reviewed (time_off_requests st) (time_off_requests st)"
      by (rule stays_reviewed_refl)
  qed
  show "extends_reviewed st (st\<lparr>time_off_requests := update_where_id i u (time_off_requests st)\<rparr>)"
  proof (rule extends_reviewedI)
    show "DEMO_REQUESTS (st\<lparr>time_off_requests := update_where_id i u (time_off_requests st)\<rparr>)
            = [] @ DEMO_REQUESTS st"
      by simp
    show "time_off_requests (st\<lparr>time_off_requests := update_where_id i u (time_off_requests st)\<rparr>)
            = update_where_id i u (time_off_requests st) @ []"
      by simp
    show "list_all2 stays_reviewed (time_off_requests st) (update_where_id i u (time_off_requests st))"
      using assms by (rule update_where_id_stays)
    show "list_all2 stays_reviewed (DEMO_REQUESTS st) (DEMO_REQUESTS st)"
      by (rule stays_reviewed_refl)
  qed
qed

lemma approve_extends: "extends_reviewed st (approveRequest DEMO_MODE st fault now i m)"
  unfolding approveRequest_def Let_def
  using review_extends [of "approve_updates now m" st i]
  by (simp add: approve_updates_def)

lemma deny_extends: "extends_reviewed st (denyRequest DEMO_MODE st fault now i m reason)"
  unfolding denyRequest_def Let_def
  using review_extends [of "deny_updates now m reason" st i]
  by (simp add: deny_updates_def)

lemma workflow_step_extends: "extends_reviewed st (workflow_step DEMO_MODE st op)"
  by (cases op) (simp_all add: submit_extends approve_extends deny_extends)

lemma workflow_extends: "extends_reviewed st (workflow DEMO_MODE st ops)"
proof (induction ops arbitrary: st)
  case Nil
  show ?case
    by (simp add: workflow_def extends_reviewed_refl)
next
  case (Cons op ops)
  have "extends_reviewed st (workflow_step DEMO_MODE st op)"
    by (rule workflow_step_extends)
  moreover have "extends_reviewed (workflow_step DEMO_MODE st op)
                   (workflow DEMO_MODE (workflow_step DEMO_MODE st op) ops)"
    by (rule Cons.IH)
  ultimately show ?case
    unfolding workflow_def by (simp add: extends_reviewed_trans)
qed


lemma update_where_id_status:
  assumes "x \<in> set (update_where_id i u rows)" and "req_id x = i"
    and "\<And>r. req_id (u r) = req_id r" and "\<And>r. status (u r) = s"
  shows "status x = s"
proof -
  from assms(1) have "x \<in> (\<lambda>r. if req_id r = i then u r else r) ` set rows"
    by (simp add: update_where_id_def)
  then obtain r0 where x: "x = (if req_id r0 = i then u r0 else r0)"
    by blast
  show ?thesis
  proof (cases "req_id r0 = i")
    case True
    with x assms(4) show ?thesis by simp
  next
    case False
    with x assms(2) show ?thesis by simp
  qed
qed

lemma review_overwrites:
  assumes "DEMO_MODE \<or> startsWith i ''demo-'' \<or> fault \<noteq> None"
  shows "\<forall>x \<in> set (DEMO_REQUESTS (approveRequest DEMO_MODE st fault now i m)).
           req_id x = i \<longrightarrow> status x = approved"
    and "\<forall>x \<in> set (DEMO_REQUESTS (denyRequest DEMO_MODE st fault now i m reason)).
           req_id x = i \<longrightarrow> status x = denied"
proof -
  have a: "DEMO_REQUESTS (approveRequest DEMO_MODE st fault now i m)
             = update_where_id i (approve_updates now m) (DEMO_REQUESTS st)"
    using assms by (auto simp: approveRequest_def updateDemoRequest_def Let_def)
  have d: "DEMO_REQUESTS (denyRequest DEMO_MODE st fault now i m reason)
             = update_where_id i (deny_updates now m reason) (DEMO_REQUESTS st)"
    using assms by (auto simp: denyRequest_def updateDemoRequest_def Let_def)
  show "\<forall>x \<in> set (DEMO_REQUESTS (approveRequest DEMO_MODE st fault now i m)).
           req_id x = i \<longrightarrow> status x = approved"
    unfolding a using update_where_id_status [of _ i "approve_updates now m" "DEMO_REQUESTS st" approved]
    by (simp add: approve_updates_def)
  show "\<forall>x \<in> set (DEMO_REQUESTS (denyRequest DEMO_MODE st fault now i m reason)).
           req_id x = i \<longrightarrow> status x = denied"
    unfolding d using update_where_id_status [of _ i "deny_updates now m reason" "DEMO_REQUESTS st" denied]
    by (simp add: deny_updates_def)
qed

lemma review_overwrites_store:
  assumes "\<not> DEMO_MODE" and "\<not> startsWith i ''demo-''"
  shows "\<forall>x \<in> set (time_off_requests (approveRequest DEMO_MODE st None now i m)).
           req_id x = i \<longrightarrow> status x = approved"
    and "\<forall>x \<in> set (time_off_requests (denyRequest DEMO_MODE st None now i m reason)).
           req_id x = i \<longrightarrow> status x = denied"
proof -
  have a: "time_off_requests (approveRequest DEMO_MODE st None now i m)
             = update_where_id i (approve_updates now m) (time_off_requests st)"
    using assms by (simp add: approveRequest_def Let_def)
  have d: "time_off_requests (denyRequest DEMO_MODE st None now i m reason)
             = update_where_id i (deny_updates now m reason) (time_off_requests st)"
    using assms by (simp add: denyRequest_def Let_def)
  show "\<forall>x \<in> set (time_off_requests (approveRequest DEMO_MODE st None now i m)).
           req_id x = i \<longrightarrow> status x = approved"
    unfolding a using update_where_id_status [of _ i "approve_updates now m" "time_off_requests st" approved]
    by (simp add: approve_updates_def)
  show "\<forall>x \<in> set (time_off_requests (denyRequest DEMO_MODE st None now i m reason)).
           req_id x = i \<longrightarrow> status x = denied"
    unfolding d using update_where_id_status [of _ i "deny_updates now m reason" "time_off_requests st" denied]
    by (simp add: deny_updates_def)
qed

lemma submit_adds_pending:
  "\<exists>r. fst (submitTimeOffRequest DEMO_MODE st fault now new_id w data) = Success r
      \<and> status r = pending \<and> reviewed_by r = None \<and> reviewed_at r = None
      \<and> (if DEMO_MODE \<or> fault \<noteq> None
         then DEMO_REQUESTS (snd (submitTimeOffRequest DEMO_MODE st fault now new_id w data))
                = r # DEMO_REQUESTS st
            \<and> time_off_requests (snd (submitTimeOffRequest DEMO_MODE st fault now new_id w data))
                = time_off_requests st
         else DEMO_REQUESTS (snd (submitTimeOffRequest DEMO_MODE st fault now new_id w data))
                = DEMO_REQUESTS st
            \<and> time_off_requests (snd (submitTimeOffRequest DEMO_MODE st fault now new_id w data))
                = time_off_requests st @ [r])"
  by (simp add: submitTimeOffRequest_def createDemoRequest_def inserted_row_def Let_def)

lemma review_length:
  "length (all_requests (approveRequest DEMO_MODE st fault now i m)) = length (all_requests st)"
  "length (all_requests (denyRequest DEMO_MODE st fault now i m reason))
     = length (all_requests st)"
  by (simp_all add: all_requests_def approveRequest_def denyRequest_def updateDemoRequest_def
        update_where_id_def Let_def)

lemma submit_length:
  "length (all_requests (snd (submitTimeOffRequest DEMO_MODE st fault now new_id w data)))
     = Suc (length (all_requests st))"
  by (simp add: all_requests_def submitTimeOffRequest_def Let_def)

lemma workflow_step_length:
  "length (all_requests (workflow_step DEMO_MODE st op))
     = length (all_requests st) + submissions [op]"
  by (cases op) (simp_all add: submissions_def submit_length review_length)

lemma submissions_Cons: "submissions (op # ops) = submissions [op] + submissions ops"
  by (simp add: submissions_def)

lemma workflow_length:
  "length (all_requests (workflow DEMO_MODE st ops)) = length (all_requests st) + submissions ops"
proof (induction ops arbitrary: st)
  case Nil
  show ?case
    by (simp add: workflow_def submissions_def)
next
  case (Cons op ops)
  have "length (all_requests (workflow DEMO_MODE (workflow_step DEMO_MODE st op) ops))
          = length (all_requests (workflow_step DEMO_MODE st op)) + submissions ops"
    by (rule Cons.IH)
  also have "\<dots> = length (all_requests st) + submissions [op] + submissions ops"
    by (simp add: workflow_step_length)
  also have "\<dots> = length (all_requests st) + submissions (op # ops)"
    using submissions_Cons [of op ops] by simp
  finally show ?case
    by (simp add: workflow_def)
qed

lemma review_refused:
  assumes "\<not> DEMO_MODE" and "\<not> startsWith i ''demo-''" and "fault \<noteq> None"
  shows "time_off_requests (approveRequest DEMO_MODE st fault now i m) = time_off_requests st"
    and "time_off_requests (denyRequest DEMO_MODE st fault now i m reason) = time_off_requests st"
  using assms
  by (simp_all add: approveRequest_def denyRequest_def updateDemoRequest_def Let_def)

text \<open>
  C9 (amended). No sequence of workflow operations takes a reviewed request back to
  pending or removes it: after any sequence of submissions, approvals and denials the
  requests that were on record are still there, in place, under their ids, and those
  that were approved or denied are approved or denied; the sequence adds one request
  for each of its submissions and none otherwise. A submission adds exactly one
  request, pending and unreviewed, at the head of the demo list (in demo mode, or when
  the store refuses the insert) or at the end of the table of the store, and changes no
  other. The terminal states are not guarded against each other. A review applied to
  the demo list, as it is in demo mode, for a demo id and when the store refuses the
  update, sets the status of every request there with the given id to approved (an
  approval) or denied (a denial), whatever the status was; so does a review that the
  store performs, for the rows of the table. Hence a denied request can become approved
  and an approved one denied. A review that the store refuses leaves the rows of the
  table as they are, whatever their status.
\<close>

theorem workflow_keeps_reviewed:
  "extends_reviewed st (workflow DEMO_MODE st ops)
   \<and> length (all_requests (workflow DEMO_MODE st ops))
       = length (all_requests st) + submissions ops
   \<and> (\<exists>r. fst (submitTimeOffRequest DEMO_MODE st fault now new_id w data) = Success r
         \<and> status r = pending \<and> reviewed_by r = None \<and> reviewed_at r = None
         \<and> (if DEMO_MODE \<or> fault \<noteq> None
            then DEMO_REQUESTS (snd (submitTimeOffRequest DEMO_MODE st fault now new_id w data))
                   = r # DEMO_REQUESTS st
               \<and> time_off_requests (snd (submitTimeOffRequest DEMO_MODE st fault now new_id w data))
                   = time_off_requests st
            else DEMO_REQUESTS (snd (submitTimeOffRequest DEMO_MODE st fault now new_id w data))
                   = DEMO_REQUESTS st
               \<and> time_off_requests (snd (submitTimeOffRequest DEMO_MODE st fault now new_id w data))
                   = time_off_requests st @ [r]))
   \<and> (DEMO_MODE \<or> startsWith i ''demo-'' \<or> fault \<noteq> None \<longrightarrow>
        (\<forall>x \<in> set (DEMO_REQUESTS (approveRequest DEMO_MODE st fault now i m)).
           req_id x = i \<longrightarrow> status x = approved)
      \<and> (\<forall>x \<in> set (DEMO_REQUESTS (denyRequest DEMO_MODE st fault now i m reason)).
           req_id x = i \<longrightarrow> status x = denied))
   \<and> (\<not> DEMO_MODE \<and> \<not> startsWith i ''demo-'' \<longrightarrow>
        (\<forall>x \<in> set (time_off_requests (approveRequest DEMO_MODE st None now i m)).
           req_id x = i \<longrightarrow> status x = approved)
      \<and> (\<forall>x \<in> set (time_off_requests (denyRequest DEMO_MODE st None now i m reason)).
           req_id x = i \<longrightarrow> status x = denied))
   \<and> (\<not> DEMO_MODE \<and> \<not> startsWith i ''demo-'' \<and> fault \<noteq> None \<longrightarrow>
        time_off_requests (approveRequest DEMO_MODE st fault now i m) = time_off_requests st
      \<and> time_off_requests (denyRequest DEMO_MODE st fault now i m reason)
          = time_off_requests st)"
proof -
  note c1 = workflow_extends [of st DEMO_MODE ops]
  note c2 = workflow_length [of DEMO_MODE st ops]
  note c3 = submit_adds_pending [of DEMO_MODE st fault now new_id w data]
  have c4: "DEMO_MODE \<or> startsWith i ''demo-'' \<or> fault \<noteq> None \<longrightarrow>
        (\<forall>x \<in> set (DEMO_REQUESTS (approveRequest DEMO_MODE st fault now i m)).
           req_id x = i \<longrightarrow> status x = approved)
      \<and> (\<forall>x \<in> set (DEMO_REQUESTS (denyRequest DEMO_MODE st fault now i m reason)).
           req_id x = i \<longrightarrow> status x = denied)"
    using review_overwrites(1) [of DEMO_MODE i fault st now m]
      review_overwrites(2) [of DEMO_MODE i fault st now m reason]
    by blast
  have c5: "\<not> DEMO_MODE \<and> \<not> startsWith i ''demo-'' \<longrightarrow>
        (\<forall>x \<in> set (time_off_requests (approveRequest DEMO_MODE st None now i m)).
           req_id x = i \<longrightarrow> status x = approved)
      \<and> (\<forall>x \<in> set (time_off_requests (denyRequest DEMO_MODE st None now i m reason)).
           req_id x = i \<longrightarrow> status x = denied)"
    using review_overwrites_store(1) [of DEMO_MODE i st now m]
      review_overwrites_store(2) [of DEMO_MODE i st now m reason]
    by blast
  have c6: "\<not> DEMO_MODE \<and> \<not> startsWith i ''demo-'' \<and> fault \<noteq> None \<longrightarrow>
        time_off_requests (approveRequest DEMO_MODE st fault now i m) = time_off_requests st
      \<and> time_off_requests (denyRequest DEMO_MODE st fault now i m reason)
          = time_off_requests st"
    using review_refused(1) [of DEMO_MODE i fault st now m]
      review_refused(2) [of DEMO_MODE i fault st now m reason]
    by blast
  show ?thesis
    by (rule conjI, rule c1, rule conjI, rule c2, rule conjI, rule c3, rule conjI, rule c4,
        rule conjI, rule c5, rule c6)
qed

theorem workflow_keeps_reviewed_witness:
  "extends_reviewed once_denied (workflow True once_denied review_again)
   \<and> map status (DEMO_REQUESTS once_denied) = [pending, denied]
   \<and> map status (DEMO_REQUESTS (workflow True once_denied review_again))
        = [pending, pending, approved]"
proof -
  have "extends_reviewed once_denied (workflow True once_denied review_again)"
    using workflow_keeps_reviewed [of once_denied True review_again] by blast
  moreover have "map status (DEMO_REQUESTS once_denied) = [pending, denied]"
    by code_simp
  moreover have "map status (DEMO_REQUESTS (workflow True once_denied review_again))
        = [pending, pending, approved]"
    by code_simp
  ultimately show ?thesis by blast
qed

theorem denied_request_becomes_approved:
  "map req_id (DEMO_REQUESTS once_denied) = [''demo-req-2000'', ''demo-req-1000'']
   \<and> map status (DEMO_REQUESTS once_denied) = [pending, denied]
   \<and> map req_id (DEMO_REQUESTS (approveRequest True once_denied None 4000 ''demo-req-1000'' ''m2''))
        = [''demo-req-2000'', ''demo-req-1000'']
   \<and> map status (DEMO_REQUESTS (approveRequest True once_denied None 4000 ''demo-req-1000'' ''m2''))
        = [pending, approved]"
  by code_simp

text \<open>A denied row of the store whose approval the store refuses stays denied.\<close>

lemma refused_approval_keeps_denied:
  "map status (time_off_requests (denyRequest False one_stored None 2000 ''a1'' ''m1'' None))
     = [denied]
   \<and> map status (time_off_requests
        (approveRequest False (denyRequest False one_stored None 2000 ''a1'' ''m1'' None)
           (Some ''23503'') 3000 ''a1'' ''m2'')) = [denied]"
  by (simp add: one_stored_def submitTimeOffRequest_def inserted_row_def empty_timeoff_def
        approveRequest_def denyRequest_def updateDemoRequest_def update_where_id_def
        deny_updates_def startsWith_def Let_def)

end
